theory Spec2Isabelle
  imports Main "HOL-Library.Char_ord" "HOL-Library.List_Lexorder" "HOL-Library.AList"
    "HOL-Library.Multiset"
begin

section \<open>The CTA bus client (\<^verbatim>\<open>src/lib/bus/ctaBusClient.ts\<close>) and its error mapping\<close>

text \<open>
  A shallow embedding of the bus tracker client: parameter canonicalisation and cache keys,
  the retry loop, the classification of upstream error payloads, the response cache, the
  registry of in-flight requests, and the mapping of a thrown error to the caller-facing
  envelope (\<^verbatim>\<open>src/lib/bus/errorMapping.ts\<close>).

  Conventions. A JavaScript string is a \<open>string\<close> (a list of 8-bit characters: the text as
  its UTF-8 bytes; case folding and the character classes of the regular expressions act on
  ASCII). A JavaScript number is an \<open>int\<close> (times are milliseconds). An optional field is an
  \<open>option\<close>. A plain object used as a dictionary (\<^verbatim>\<open>Record<string, ...>\<close>) is an association
  list with distinct keys in insertion order; an assignment \<^verbatim>\<open>o[k] = v\<close> is
  \<open>AList.update k v\<close> (in place when the key exists, appended otherwise); that JavaScript
  enumerates integer-like keys before the others is not modelled (the cache key sorts the
  keys, and only the order of the parameters in the URL depends on it). A \<^verbatim>\<open>Map\<close> is a
  partial function. A thrown exception is the \<open>Inl\<close> of a sum. The reads of \<^verbatim>\<open>Date.now()\<close>
  within one synchronous piece of code give one instant.
\<close>

subsection \<open>Strings\<close>

definition truthy :: "string \<Rightarrow> bool" where
  "truthy s = (s \<noteq> [])"

definition truthy_opt :: "string option \<Rightarrow> bool" where
  "truthy_opt v = (case v of None \<Rightarrow> False | Some s \<Rightarrow> truthy s)"

text \<open>\<^verbatim>\<open>Array.prototype.join\<close>.\<close>

fun join :: "string \<Rightarrow> string list \<Rightarrow> string" where
  "join sep [] = []"
| "join sep [x] = x"
| "join sep (x # y # ys) = x @ sep @ join sep (y # ys)"

text \<open>\<^verbatim>\<open>String.prototype.includes\<close>: the pattern occurs as a contiguous substring.\<close>

definition startsWith :: "string \<Rightarrow> string \<Rightarrow> bool" where
  "startsWith s pat = (take (length pat) s = pat)"

fun includes_str :: "string \<Rightarrow> string \<Rightarrow> bool" where
  "includes_str [] pat = (pat = [])"
| "includes_str (c # cs) pat = (startsWith (c # cs) pat \<or> includes_str cs pat)"

definition upper_letters :: string where
  "upper_letters = ''ABCDEFGHIJKLMNOPQRSTUVWXYZ''"

definition lower_letters :: string where
  "lower_letters = ''abcdefghijklmnopqrstuvwxyz''"

definition digit_chars :: string where
  "digit_chars = ''0123456789''"

definition to_lower :: "char \<Rightarrow> char" where
  "to_lower c = (case map_of (zip upper_letters lower_letters) c of Some l \<Rightarrow> l | None \<Rightarrow> c)"


text \<open>
  A regular expression of the source is a case-insensitive alternation of literal texts
  (\<^verbatim>\<open>/limit exceeded|daily request limit/i\<close>): the list of its alternatives, in lower case.
  \<^verbatim>\<open>RegExp.prototype.test\<close> holds when one alternative occurs in the text.
\<close>

type_synonym regex_ci = "string list"

definition regex_test :: "regex_ci \<Rightarrow> string \<Rightarrow> bool" where
  "regex_test re s = list_ex (includes_str (map to_lower s)) re"

text \<open>
  \<^verbatim>\<open>Number.prototype.toString\<close> on an integer: decimal digits, with a sign. This is the
  text JavaScript prints for the integers of magnitude below \<^verbatim>\<open>1e21\<close>; from there on it
  prints an exponent, which is not modelled, as fractions are not.
\<close>

fun nat_toString :: "nat \<Rightarrow> string" where
  "nat_toString n =
     (if n < 10 then [digit_chars ! n]
      else nat_toString (n div 10) @ [digit_chars ! (n mod 10)])"

declare nat_toString.simps [simp del]

definition number_toString :: "int \<Rightarrow> string" where
  "number_toString i =
     (if i < 0 then CHR ''-'' # nat_toString (nat (- i)) else nat_toString (nat i))"

text \<open>
  \<^verbatim>\<open>encodeURIComponent\<close>: letters, digits and \<^verbatim>\<open>- _ . ! ~ * ' ( )\<close> stand for themselves, every
  other byte of the UTF-8 text is written \<^verbatim>\<open>%XX\<close>.
\<close>

definition hex_digits :: string where
  "hex_digits = ''0123456789ABCDEF''"

definition percent_byte :: "char \<Rightarrow> string" where
  "percent_byte c =
     [CHR ''%'', hex_digits ! ((of_char c :: nat) div 16), hex_digits ! ((of_char c :: nat) mod 16)]"

definition uri_unreserved :: "char \<Rightarrow> bool" where
  "uri_unreserved c =
     (c \<in> set upper_letters \<or> c \<in> set lower_letters \<or> c \<in> set digit_chars
      \<or> c \<in> set ''-_.!~*()'' \<or> c = CHR 0x27)"

definition encodeURIComponent :: "string \<Rightarrow> string" where
  "encodeURIComponent s = concat (map (\<lambda>c. if uri_unreserved c then [c] else percent_byte c) s)"

text \<open>
  \<^verbatim>\<open>URLSearchParams.prototype.toString\<close>: the \<^verbatim>\<open>application/x-www-form-urlencoded\<close> serialiser
  (letters, digits and \<^verbatim>\<open>* - . _\<close> stand for themselves, a space is \<^verbatim>\<open>+\<close>).
\<close>

definition form_byte :: "char \<Rightarrow> string" where
  "form_byte c =
     (if c \<in> set upper_letters \<or> c \<in> set lower_letters \<or> c \<in> set digit_chars
         \<or> c \<in> set ''*-._'' then [c]
      else if c = CHR '' '' then ''+''
      else percent_byte c)"

definition form_encode :: "string \<Rightarrow> string" where
  "form_encode s = concat (map form_byte s)"

definition URLSearchParams_toString :: "(string \<times> string) list \<Rightarrow> string" where
  "URLSearchParams_toString ps =
     join ''&'' (map (\<lambda>(k, v). form_encode k @ ''='' @ form_encode v) ps)"

subsection \<open>Request parameters and the cache key\<close>

text \<open>A value of \<^verbatim>\<open>Record<string, string | number | undefined>\<close> (the code also tests for null).\<close>

datatype param_value = PString string | PNumber int | PUndefined | PNull

text \<open>\<^verbatim>\<open>value === undefined || value === null || value === ""\<close>.\<close>

definition is_blank :: "param_value \<Rightarrow> bool" where
  "is_blank v = (case v of PUndefined \<Rightarrow> True | PNull \<Rightarrow> True | PString s \<Rightarrow> s = [] | PNumber n \<Rightarrow> False)"

text \<open>\<^verbatim>\<open>typeof value === "number" ? value.toString() : String(value)\<close>.\<close>

definition stringify :: "param_value \<Rightarrow> string" where
  "stringify v =
     (case v of PNumber n \<Rightarrow> number_toString n | PString s \<Rightarrow> s
      | PUndefined \<Rightarrow> ''undefined'' | PNull \<Rightarrow> ''null'')"

definition normalizeParams :: "(string \<times> param_value) list \<Rightarrow> (string \<times> string) list" where
  "normalizeParams ps =
     foldl (\<lambda>normalized (key, v).
              if is_blank v then normalized else AList.update key (stringify v) normalized)
       [] ps"

text \<open>
  \<^verbatim>\<open>Object.keys(params).sort()\<close> orders the keys by their code units; each key is then
  looked up in the object. The order of the model is that of the UTF-8 bytes, which is the
  order of the code units for keys in the Basic Multilingual Plane (a key with a character
  beyond it may sort elsewhere).
\<close>

definition serializeParams :: "(string \<times> string) list \<Rightarrow> string" where
  "serializeParams ps =
     join ''&''
       (map (\<lambda>key. key @ ''='' @
                encodeURIComponent (case map_of ps key of Some v \<Rightarrow> v | None \<Rightarrow> ''undefined''))
          (sort (map fst ps)))"

definition computeCacheKey :: "string \<Rightarrow> (string \<times> string) list \<Rightarrow> string option \<Rightarrow> string" where
  "computeCacheKey endpoint ps suppliedCacheKey =
     (if truthy_opt suppliedCacheKey then the suppliedCacheKey
      else let serialized = serializeParams ps
           in if length serialized > 0 then endpoint @ ''?'' @ serialized else endpoint)"

subsection \<open>Errors\<close>

text \<open>
  An upstream error object \<^verbatim>\<open>{code?, msg}\<close> as it arrives in the JSON body; the code guards
  against a missing message (\<^verbatim>\<open>err?.msg\<close>), so both fields are optional here.
\<close>

record bus_raw_error =
  raw_code :: "string option"
  raw_msg :: "string option"

text \<open>
  The class \<^verbatim>\<open>BusClientError\<close>. The constructor sets \<^verbatim>\<open>status = options.status ?? 502\<close> and
  copies the other options; the diagnostic \<^verbatim>\<open>cause\<close>, which nothing reads, is left out.
\<close>

record bus_client_error =
  err_code :: string
  err_message :: string
  err_status :: int
  err_reason :: "string option"
  err_details :: "string option"
  err_endpoint :: "string option"
  err_params :: "(string \<times> string) list option"
  err_rawErrors :: "bus_raw_error list option"
  err_sourceTimestamp :: "string option"
  err_cacheKey :: "string option"
  err_cacheTtlMs :: "int option"
  err_servedFromCache :: "bool option"

definition BusClientError :: "string \<Rightarrow> string \<Rightarrow> bus_client_error" where
  "BusClientError c m =
     \<lparr> err_code = c, err_message = m, err_status = 502, err_reason = None, err_details = None,
       err_endpoint = None, err_params = None, err_rawErrors = None,
       err_sourceTimestamp = None, err_cacheKey = None, err_cacheTtlMs = None,
       err_servedFromCache = None \<rparr>"

text \<open>What a \<^verbatim>\<open>catch\<close> can receive besides a \<^verbatim>\<open>BusClientError\<close>: an error with a name and a message.\<close>

record js_error =
  js_name :: "string option"
  js_message :: "string option"

subsection \<open>The retry loop\<close>

record http_response =
  resp_status :: int

definition resp_ok :: "http_response \<Rightarrow> bool" where
  "resp_ok r = (200 \<le> resp_status r \<and> resp_status r \<le> 299)"

text \<open>How one \<^verbatim>\<open>fetch\<close> settles: a response, or a rejection (abort on timeout, network failure).\<close>

datatype fetch_outcome = Responded http_response | Rejected js_error

datatype thrown = ClientErr bus_client_error | OtherErr js_error

datatype retry_decision = Retry | Throw bus_client_error | Return http_response

text \<open>The \<^verbatim>\<open>catch\<close> block of \<^verbatim>\<open>fetchWithRetry\<close>, for the attempt numbered \<open>attempt\<close>.\<close>

definition fetchWithRetry_catch :: "nat \<Rightarrow> int \<Rightarrow> thrown \<Rightarrow> retry_decision" where
  "fetchWithRetry_catch attempt maxRetries error =
     (let isAbort = (case error of OtherErr e \<Rightarrow> js_name e = Some ''AbortError'' | ClientErr b \<Rightarrow> False);
          isNetwork = (case error of
                         OtherErr e \<Rightarrow> js_name e = Some ''FetchError''
                           \<or> (case js_message e of Some m \<Rightarrow> includes_str m ''network'' | None \<Rightarrow> False)
                       | ClientErr b \<Rightarrow> includes_str (err_message b) ''network'');
          isClientError = (case error of ClientErr b \<Rightarrow> True | OtherErr e \<Rightarrow> False);
          shouldRetry = (int attempt \<le> maxRetries \<and> (isAbort \<or> isNetwork \<or> isClientError))
      in if \<not> shouldRetry
         then (case error of
                 ClientErr b \<Rightarrow> Throw b
               | OtherErr e \<Rightarrow>
                   Throw (BusClientError ''CTA_BUS_REQUEST_FAILED''
                            ''Failed to reach the CTA Bus Tracker service.''))
         else Retry)"

text \<open>
  The body of the \<^verbatim>\<open>try\<close> once the \<^verbatim>\<open>fetch\<close> of this attempt has settled. The
  \<^verbatim>\<open>throw\<close> of the HTTP error stands inside the \<^verbatim>\<open>try\<close>, so the \<^verbatim>\<open>catch\<close> block receives it.
\<close>

definition fetchWithRetry_attempt :: "nat \<Rightarrow> int \<Rightarrow> fetch_outcome \<Rightarrow> retry_decision" where
  "fetchWithRetry_attempt attempt maxRetries outcome =
     (case outcome of
        Responded response \<Rightarrow>
          if \<not> resp_ok response then
            (let shouldRetry = (int attempt \<le> maxRetries \<and> resp_status response \<ge> 500)
             in if shouldRetry then Retry
                else fetchWithRetry_catch attempt maxRetries
                       (ClientErr ((BusClientError ''CTA_BUS_HTTP_ERROR''
                           (''CTA bus tracker returned '' @ number_toString (resp_status response) @ ''.''))
                         \<lparr> err_status := resp_status response \<rparr>)))
          else Return response
      | Rejected e \<Rightarrow> fetchWithRetry_catch attempt maxRetries (OtherErr e))"

text \<open>
  The \<^verbatim>\<open>while (true)\<close> loop against an upstream that settles the \<open>n\<close>-th \<^verbatim>\<open>fetch\<close> with
  \<open>upstream n\<close>. The result carries the number of attempts made.
\<close>

function fetchWithRetry_from ::
  "(nat \<Rightarrow> fetch_outcome) \<Rightarrow> int \<Rightarrow> nat \<Rightarrow> nat \<times> (bus_client_error + http_response)" where
  "fetchWithRetry_from upstream maxRetries attempt0 =
     (let attempt = attempt0 + 1
      in case fetchWithRetry_attempt attempt maxRetries (upstream attempt) of
           Retry \<Rightarrow> fetchWithRetry_from upstream maxRetries attempt
         | Throw e \<Rightarrow> (attempt, Inl e)
         | Return r \<Rightarrow> (attempt, Inr r))"
  by pat_completeness auto

termination
  by (relation "measure (\<lambda>(upstream, maxRetries, attempt0). nat (maxRetries + 1 - int attempt0))")
    (auto simp: fetchWithRetry_attempt_def fetchWithRetry_catch_def Let_def
      split: fetch_outcome.splits if_splits thrown.splits)

declare fetchWithRetry_from.simps [simp del]

definition fetchWithRetry ::
  "(nat \<Rightarrow> fetch_outcome) \<Rightarrow> int \<Rightarrow> nat \<times> (bus_client_error + http_response)" where
  "fetchWithRetry upstream maxRetries = fetchWithRetry_from upstream maxRetries 0"

subsection \<open>Payloads, results and the response cache\<close>

text \<open>
  The object under \<^verbatim>\<open>bustime-response\<close>, typed as the source types it
  (\<^verbatim>\<open>TPayload & { error?: BusRawError[]; tmst?: string }\<close>): the two fields the client reads,
  and the rest of the payload, which it passes on unread.
\<close>

record 'p bustime_payload =
  p_tmst :: "string option"
  p_error :: "bus_raw_error list option"
  p_fields :: 'p

record bus_client_meta =
  meta_endpoint :: string
  meta_params :: "(string \<times> string) list"
  meta_cacheKey :: string
  meta_cacheTtlMs :: "int option"
  meta_cacheExpiresAt :: "int option"
  meta_servedFromCache :: bool
  meta_sourceTimestamp :: "string option"
  meta_reason :: "string option"

record 'p bus_api_client_result =
  res_payload :: "'p bustime_payload"
  res_meta :: bus_client_meta

record 'p cache_entry =
  entry_value :: "'p bus_api_client_result"
  entry_expiresAt :: int

type_synonym 'p outcome = "bus_client_error + 'p bus_api_client_result"

definition toCachedResult :: "'p cache_entry \<Rightarrow> 'p bus_api_client_result" where
  "toCachedResult entry =
     \<lparr> res_payload = res_payload (entry_value entry),
       res_meta = (res_meta (entry_value entry)) \<lparr> meta_servedFromCache := True \<rparr> \<rparr>"

subsection \<open>Soft errors\<close>

definition SOFT_ERROR_PATTERNS :: "(regex_ci \<times> string) list" where
  "SOFT_ERROR_PATTERNS =
     [([''no data found''], ''No data found for parameters.''),
      ([''no service scheduled''], ''No service scheduled at this time.''),
      ([''no arrival times''], ''No arrival times available.''),
      ([''no predictions''], ''No predictions are currently available.''),
      ([''no buses were found''], ''No active vehicles found.'')]"

fun classifySoftError :: "bus_raw_error list \<Rightarrow> string option" where
  "classifySoftError [] = None"
| "classifySoftError (err # errors) =
     (if \<not> truthy_opt (raw_msg err) then classifySoftError errors
      else (case find (\<lambda>pattern. regex_test (fst pattern) (the (raw_msg err))) SOFT_ERROR_PATTERNS of
              Some pattern \<Rightarrow> Some (snd pattern)
            | None \<Rightarrow> classifySoftError errors))"

subsection \<open>The request: validation, defaults, cache key\<close>

text \<open>
  The module constants read from \<^verbatim>\<open>process.env\<close>, and the one library function the model
  takes as given: \<open>env_ctaDateIso\<close> is \<^verbatim>\<open>parseCtaDate\<close> followed by \<^verbatim>\<open>toISOString\<close> (local
  time zone, \<^verbatim>\<open>Date\<close> arithmetic), \<open>None\<close> where \<^verbatim>\<open>parseCtaDate\<close> returns null.
\<close>

record environment =
  env_apiKey :: "string option"
  env_rtpidatafeed :: "string option"
  env_ctaDateIso :: "string \<Rightarrow> string option"

definition CTA_BUS_RTPIDATAFEED :: "environment \<Rightarrow> string" where
  "CTA_BUS_RTPIDATAFEED env = (case env_rtpidatafeed env of Some s \<Rightarrow> s | None \<Rightarrow> ''ctabus'')"

definition CTA_BUS_API_BASE_URL :: string where
  "CTA_BUS_API_BASE_URL = ''https://www.ctabustracker.com/bustime/api/v3''"

definition DEFAULT_TIMEOUT_MS :: int where
  "DEFAULT_TIMEOUT_MS = 7000"

definition DEFAULT_MAX_RETRIES :: int where
  "DEFAULT_MAX_RETRIES = 2"

definition parseTimestampToIso :: "environment \<Rightarrow> string option \<Rightarrow> string option" where
  "parseTimestampToIso env timestamp =
     (if \<not> truthy_opt timestamp then None else env_ctaDateIso env (the timestamp))"

definition ensureApiKey :: "environment \<Rightarrow> bus_client_error option" where
  "ensureApiKey env =
     (if \<not> truthy_opt (env_apiKey env)
      then Some ((BusClientError ''CTA_BUS_CONFIG_MISSING''
                    ''CTA bus tracker API key is not configured.'') \<lparr> err_status := 500 \<rparr>)
      else None)"

record bus_request_options =
  opt_endpoint :: string
  opt_params :: "(string \<times> param_value) list option"
  opt_requiredParams :: "string list option"
  opt_cacheKey :: "string option"
  opt_cacheTtlMs :: "int option"
  opt_timeoutMs :: "int option"
  opt_maxRetries :: "int option"

text \<open>The local constants of one call of \<^verbatim>\<open>callBusApi\<close>, which its asynchronous body closes over.\<close>

record bus_request =
  req_endpoint :: string
  req_normalizedParams :: "(string \<times> string) list"
  req_cacheKey :: string
  req_cacheTtlMs :: int
  req_timeoutMs :: int
  req_maxRetries :: int
  req_requestParams :: "(string \<times> string) list"

text \<open>
  \<^verbatim>\<open>params[key]\<close> is undefined, null or empty. The lookup sees the object's own entries; the
  properties every object inherits (\<^verbatim>\<open>toString\<close>, \<^verbatim>\<open>constructor\<close> and the like), which the code
  would find for such a key, are not modelled.
\<close>

definition is_missing :: "(string \<times> param_value) list \<Rightarrow> string \<Rightarrow> bool" where
  "is_missing ps key = (case map_of ps key of None \<Rightarrow> True | Some v \<Rightarrow> is_blank v)"

text \<open>
  Lines 264 to 269: the defaults for \<^verbatim>\<open>rtpidatafeed\<close> and \<^verbatim>\<open>format\<close>, assigned to the
  normalised parameters where the caller gave none.
\<close>

definition callBusApi_defaults :: "environment \<Rightarrow> (string \<times> string) list \<Rightarrow> (string \<times> string) list" where
  "callBusApi_defaults env normalized0 =
     (let normalized1 =
            (if \<not> truthy_opt (map_of normalized0 ''rtpidatafeed'') \<and> truthy (CTA_BUS_RTPIDATAFEED env)
             then AList.update ''rtpidatafeed'' (CTA_BUS_RTPIDATAFEED env) normalized0
             else normalized0)
      in if \<not> truthy_opt (map_of normalized1 ''format'')
         then AList.update ''format'' ''json'' normalized1
         else normalized1)"

text \<open>
  \<^verbatim>\<open>callBusApi\<close> up to the cache lookup: the credential check, the required parameters,
  the normalised parameters with their defaults, the cache key, and the parameters of the
  outgoing request, which alone hold the credential.
\<close>

definition callBusApi_request :: "environment \<Rightarrow> bus_request_options \<Rightarrow> bus_client_error + bus_request" where
  "callBusApi_request env options =
     (case ensureApiKey env of
        Some e \<Rightarrow> Inl e
      | None \<Rightarrow>
          (let params = (case opt_params options of Some ps \<Rightarrow> ps | None \<Rightarrow> []);
               requiredKeys = (case opt_requiredParams options of Some ks \<Rightarrow> ks | None \<Rightarrow> [])
           in case find (is_missing params) requiredKeys of
                Some key \<Rightarrow>
                  Inl ((BusClientError ''CTA_BUS_BAD_REQUEST'' (''Missing required parameter: '' @ key))
                         \<lparr> err_status := 400, err_endpoint := Some (opt_endpoint options),
                           err_params := Some (normalizeParams params) \<rparr>)
              | None \<Rightarrow>
                  (let normalizedParams = callBusApi_defaults env (normalizeParams params)
                   in Inr \<lparr> req_endpoint = opt_endpoint options,
                            req_normalizedParams = normalizedParams,
                            req_cacheKey =
                              computeCacheKey (opt_endpoint options) normalizedParams (opt_cacheKey options),
                            req_cacheTtlMs = (case opt_cacheTtlMs options of Some t \<Rightarrow> t | None \<Rightarrow> 0),
                            req_timeoutMs =
                              (case opt_timeoutMs options of Some t \<Rightarrow> t | None \<Rightarrow> DEFAULT_TIMEOUT_MS),
                            req_maxRetries =
                              (case opt_maxRetries options of Some n \<Rightarrow> n | None \<Rightarrow> DEFAULT_MAX_RETRIES),
                            req_requestParams =
                              AList.update ''format'' ''json''
                                (AList.update ''key'' (the (env_apiKey env)) normalizedParams) \<rparr>)))"

definition request_url :: "bus_request \<Rightarrow> string" where
  "request_url req =
     CTA_BUS_API_BASE_URL @ ''/'' @ req_endpoint req @ ''?''
       @ URLSearchParams_toString (req_requestParams req)"

subsection \<open>The asynchronous body: classification and the cache write\<close>

text \<open>
  How \<^verbatim>\<open>response.json()\<close> settles: it rejects, or the body has no object under
  \<^verbatim>\<open>bustime-response\<close>, or it has one.
\<close>

datatype 'p json_outcome = InvalidJson | NoEnvelope | Envelope "'p bustime_payload"

text \<open>
  Lines 316 to 332: a non-empty \<^verbatim>\<open>error\<close> array is a soft error (the reason is returned and
  the array deleted from the payload) or a thrown \<^verbatim>\<open>BusClientError\<close>.
\<close>

definition callBusApi_classify ::
  "bus_request \<Rightarrow> string option \<Rightarrow> 'p bustime_payload
     \<Rightarrow> bus_client_error + ('p bustime_payload \<times> string option)" where
  "callBusApi_classify req sourceTimestamp payload =
     (case p_error payload of
        Some (first # others) \<Rightarrow>
          (let reason = classifySoftError (first # others)
           in if \<not> truthy_opt reason
              then Inl ((BusClientError
                           (case raw_code first of Some c \<Rightarrow> c | None \<Rightarrow> ''CTA_BUS_API_ERROR'')
                           (case raw_msg first of Some m \<Rightarrow> m
                            | None \<Rightarrow> ''CTA bus tracker returned an error.''))
                        \<lparr> err_endpoint := Some (req_endpoint req),
                          err_params := Some (req_normalizedParams req),
                          err_rawErrors := Some (first # others),
                          err_sourceTimestamp := sourceTimestamp \<rparr>)
              else Inr (payload \<lparr> p_error := None \<rparr>, reason))
      | _ \<Rightarrow> Inr (payload, None))"

text \<open>
  The body after \<^verbatim>\<open>response.json()\<close> has settled, at time \<open>now\<close>: the outcome of the
  request, and the cache write it performs (\<^verbatim>\<open>responseCache.set(key, entry)\<close>), if any.
\<close>

definition callBusApi_body ::
  "environment \<Rightarrow> bus_request \<Rightarrow> 'p json_outcome \<Rightarrow> int
     \<Rightarrow> 'p outcome \<times> (string \<times> 'p cache_entry) option" where
  "callBusApi_body env req body now =
     (case body of
        InvalidJson \<Rightarrow>
          (Inl ((BusClientError ''CTA_BUS_INVALID_RESPONSE'' ''CTA bus tracker returned invalid JSON.'')
                  \<lparr> err_endpoint := Some (req_endpoint req),
                    err_params := Some (req_normalizedParams req) \<rparr>), None)
      | NoEnvelope \<Rightarrow>
          (Inl ((BusClientError ''CTA_BUS_UNEXPECTED_SHAPE''
                   ''Unexpected CTA bus tracker response shape.'')
                  \<lparr> err_endpoint := Some (req_endpoint req),
                    err_params := Some (req_normalizedParams req) \<rparr>), None)
      | Envelope payload \<Rightarrow>
          (let sourceTimestamp = parseTimestampToIso env (p_tmst payload)
           in case callBusApi_classify req sourceTimestamp payload of
                Inl e \<Rightarrow> (Inl e, None)
              | Inr (payload', reason) \<Rightarrow>
                  (let clientResult =
                         \<lparr> res_payload = payload',
                           res_meta =
                             \<lparr> meta_endpoint = req_endpoint req,
                               meta_params = req_normalizedParams req,
                               meta_cacheKey = req_cacheKey req,
                               meta_cacheTtlMs = Some (req_cacheTtlMs req),
                               meta_cacheExpiresAt =
                                 (if req_cacheTtlMs req > 0 then Some (now + req_cacheTtlMs req)
                                  else None),
                               meta_servedFromCache = False,
                               meta_sourceTimestamp = sourceTimestamp,
                               meta_reason = reason \<rparr> \<rparr>
                   in (Inr clientResult,
                       if req_cacheTtlMs req > 0
                       then Some (req_cacheKey req,
                                  \<lparr> entry_value = clientResult,
                                    entry_expiresAt = now + req_cacheTtlMs req \<rparr>)
                       else None))))"

subsection \<open>The client as a transition system\<close>

text \<open>
  JavaScript runs each piece of code between two \<^verbatim>\<open>await\<close>s to completion, so the client is a
  transition system whose steps are those pieces: a call of \<^verbatim>\<open>callBusApi\<close> up to its
  \<^verbatim>\<open>return\<close> (which includes the start of the asynchronous body up to its first
  \<^verbatim>\<open>fetch\<close>), the continuation of the body when a \<^verbatim>\<open>fetch\<close> settles, its continuation when
  \<^verbatim>\<open>response.json()\<close> settles, the \<^verbatim>\<open>finally\<close> callback, and \<^verbatim>\<open>invalidateBusCache\<close>.

  A running body is a task, named by the number of its promise (\<^verbatim>\<open>requestPromise\<close>).
\<close>

datatype 'p phase = Fetching nat | Parsing | Settled "'p outcome"

record 'p task =
  task_request :: bus_request
  task_url :: string
  task_phase :: "'p phase"

text \<open>
  What a call of \<^verbatim>\<open>callBusApi\<close> hands to its caller: a promise already rejected or already
  resolved from the cache, or the promise of a task, which the caller joined or launched.
\<close>

datatype 'p call_return =
  Rejects bus_client_error | CacheHit "'p bus_api_client_result" | Joins nat | Launches nat

text \<open>
  The module state (\<^verbatim>\<open>responseCache\<close>, \<^verbatim>\<open>inFlightRequests\<close>), the tasks, the outcomes of the
  settled promises, and three logs kept for the statements only: every \<^verbatim>\<open>fetch\<close> issued (task
  and URL), every key written to the cache, and every task whose \<^verbatim>\<open>finally\<close> callback ran.
\<close>

record 'p client_state =
  responseCache :: "string \<rightharpoonup> 'p cache_entry"
  inFlightRequests :: "string \<rightharpoonup> nat"
  tasks :: "nat \<rightharpoonup> 'p task"
  settled :: "nat \<rightharpoonup> 'p outcome"
  nextPromise :: nat
  returned :: "'p call_return list"
  fetchLog :: "(nat \<times> string) list"
  cacheWrites :: "string list"
  finallyLog :: "nat list"

definition init_state :: "'p client_state" where
  "init_state =
     \<lparr> responseCache = Map.empty, inFlightRequests = Map.empty, tasks = Map.empty,
       settled = Map.empty, nextPromise = 0, returned = [], fetchLog = [], cacheWrites = [],
       finallyLog = [] \<rparr>"

text \<open>
  Lines 289 to 363: join the request in flight for the key, or start the body (which issues
  the first \<^verbatim>\<open>fetch\<close>), attach the \<^verbatim>\<open>finally\<close> callback and register the promise.
\<close>

definition callBusApi_coalesce ::
  "bus_request \<Rightarrow> 'p client_state \<Rightarrow> 'p call_return \<times> 'p client_state" where
  "callBusApi_coalesce req s =
     (case inFlightRequests s (req_cacheKey req) of
        Some p \<Rightarrow> (Joins p, s)
      | None \<Rightarrow>
          (let p = nextPromise s
           in (Launches p,
               s \<lparr> tasks := (tasks s)(p \<mapsto> \<lparr> task_request = req, task_url = request_url req,
                                              task_phase = Fetching 1 \<rparr>),
                   inFlightRequests := (inFlightRequests s)(req_cacheKey req \<mapsto> p),
                   nextPromise := p + 1,
                   fetchLog := fetchLog s @ [(p, request_url req)] \<rparr>)))"

text \<open>\<^verbatim>\<open>callBusApi\<close>, called at time \<open>now\<close>, up to its \<^verbatim>\<open>return\<close>.\<close>

definition callBusApi ::
  "environment \<Rightarrow> bus_request_options \<Rightarrow> int \<Rightarrow> 'p client_state
     \<Rightarrow> 'p call_return \<times> 'p client_state" where
  "callBusApi env options now s =
     (case callBusApi_request env options of
        Inl e \<Rightarrow> (Rejects e, s)
      | Inr req \<Rightarrow>
          (case (if req_cacheTtlMs req > 0 then responseCache s (req_cacheKey req) else None) of
             Some cached \<Rightarrow>
               if entry_expiresAt cached > now then (CacheHit (toCachedResult cached), s)
               else callBusApi_coalesce req s
           | None \<Rightarrow> callBusApi_coalesce req s))"

text \<open>The continuation of \<^verbatim>\<open>fetchWithRetry\<close> when the outstanding \<^verbatim>\<open>fetch\<close> of task \<open>p\<close> settles.\<close>

definition fetch_settles :: "nat \<Rightarrow> fetch_outcome \<Rightarrow> 'p client_state \<Rightarrow> 'p client_state" where
  "fetch_settles p outcome s =
     (case tasks s p of
        None \<Rightarrow> s
      | Some t \<Rightarrow>
          (case task_phase t of
             Fetching attempt \<Rightarrow>
               (case fetchWithRetry_attempt attempt (req_maxRetries (task_request t)) outcome of
                  Retry \<Rightarrow>
                    s \<lparr> tasks := (tasks s)(p \<mapsto> t \<lparr> task_phase := Fetching (attempt + 1) \<rparr>),
                        fetchLog := fetchLog s @ [(p, task_url t)] \<rparr>
                | Throw e \<Rightarrow> s \<lparr> tasks := (tasks s)(p \<mapsto> t \<lparr> task_phase := Settled (Inl e) \<rparr>) \<rparr>
                | Return response \<Rightarrow> s \<lparr> tasks := (tasks s)(p \<mapsto> t \<lparr> task_phase := Parsing \<rparr>) \<rparr>)
           | Parsing \<Rightarrow> s
           | Settled out \<Rightarrow> s))"

text \<open>The continuation of the body when \<^verbatim>\<open>response.json()\<close> of task \<open>p\<close> settles, at time \<open>now\<close>.\<close>

definition json_settles ::
  "environment \<Rightarrow> nat \<Rightarrow> 'p json_outcome \<Rightarrow> int \<Rightarrow> 'p client_state \<Rightarrow> 'p client_state" where
  "json_settles env p body now s =
     (case tasks s p of
        None \<Rightarrow> s
      | Some t \<Rightarrow>
          (case task_phase t of
             Parsing \<Rightarrow>
               (case callBusApi_body env (task_request t) body now of
                  (out, None) \<Rightarrow> s \<lparr> tasks := (tasks s)(p \<mapsto> t \<lparr> task_phase := Settled out \<rparr>) \<rparr>
                | (out, Some (key, entry)) \<Rightarrow>
                    s \<lparr> tasks := (tasks s)(p \<mapsto> t \<lparr> task_phase := Settled out \<rparr>),
                        responseCache := (responseCache s)(key \<mapsto> entry),
                        cacheWrites := cacheWrites s @ [key] \<rparr>)
           | Fetching attempt \<Rightarrow> s
           | Settled out \<Rightarrow> s))"

text \<open>
  The \<^verbatim>\<open>finally\<close> callback of task \<open>p\<close>, once its body has settled:
  \<^verbatim>\<open>inFlightRequests.delete(cacheKey)\<close>; then \<^verbatim>\<open>requestPromise\<close> settles as the body did.
\<close>

definition finally_runs :: "nat \<Rightarrow> 'p client_state \<Rightarrow> 'p client_state" where
  "finally_runs p s =
     (case tasks s p of
        None \<Rightarrow> s
      | Some t \<Rightarrow>
          (case task_phase t of
             Settled out \<Rightarrow>
               s \<lparr> inFlightRequests := (inFlightRequests s)(req_cacheKey (task_request t) := None),
                   tasks := (tasks s)(p := None),
                   settled := (settled s)(p \<mapsto> out),
                   finallyLog := finallyLog s @ [p] \<rparr>
           | Fetching attempt \<Rightarrow> s
           | Parsing \<Rightarrow> s))"

definition invalidateBusCache :: "(string \<Rightarrow> bool) option \<Rightarrow> 'p client_state \<Rightarrow> 'p client_state" where
  "invalidateBusCache predicate s =
     s \<lparr> responseCache :=
           (\<lambda>key. if (case predicate of None \<Rightarrow> True | Some matches \<Rightarrow> matches key) then None
                   else responseCache s key) \<rparr>"

datatype 'p event =
    Call bus_request_options int
  | FetchSettles nat fetch_outcome
  | JsonSettles nat "'p json_outcome" int
  | FinallyRuns nat
  | Invalidate "(string \<Rightarrow> bool) option"

definition step :: "environment \<Rightarrow> 'p event \<Rightarrow> 'p client_state \<Rightarrow> 'p client_state" where
  "step env ev s =
     (case ev of
        Call options now \<Rightarrow>
          (case callBusApi env options now s of (r, s') \<Rightarrow> s' \<lparr> returned := returned s' @ [r] \<rparr>)
      | FetchSettles p outcome \<Rightarrow> fetch_settles p outcome s
      | JsonSettles p body now \<Rightarrow> json_settles env p body now s
      | FinallyRuns p \<Rightarrow> finally_runs p s
      | Invalidate predicate \<Rightarrow> invalidateBusCache predicate s)"

definition run :: "environment \<Rightarrow> 'p event list \<Rightarrow> 'p client_state \<Rightarrow> 'p client_state" where
  "run env evs s = foldl (\<lambda>s' ev. step env ev s') s evs"

text \<open>The result a caller eventually observes on the promise it was handed.\<close>

definition eventual :: "'p client_state \<Rightarrow> 'p call_return \<Rightarrow> 'p outcome option" where
  "eventual s r =
     (case r of
        Rejects e \<Rightarrow> Some (Inl e)
      | CacheHit v \<Rightarrow> Some (Inr v)
      | Joins p \<Rightarrow> settled s p
      | Launches p \<Rightarrow> settled s p)"

text \<open>The number of \<^verbatim>\<open>fetch\<close> calls a step issues.\<close>

definition fetches_issued :: "'p client_state \<Rightarrow> 'p client_state \<Rightarrow> nat" where
  "fetches_issued s s' = length (fetchLog s') - length (fetchLog s)"

text \<open>
  Single flight: the registry maps a key to a task exactly when that task runs for that
  key; no promise number is reused; the \<^verbatim>\<open>finally\<close> callback ran only for tasks that are
  gone, and for each at most once; every running task was launched by a call that holds its
  promise; the settled promises are those whose \<^verbatim>\<open>finally\<close> callback ran.
\<close>

definition single_flight :: "'p client_state \<Rightarrow> bool" where
  "single_flight s =
     ((\<forall>k p. (inFlightRequests s k = Some p)
               = (\<exists>t. tasks s p = Some t \<and> req_cacheKey (task_request t) = k))
      \<and> (\<forall>p. nextPromise s \<le> p \<longrightarrow> tasks s p = None \<and> p \<notin> set (finallyLog s))
      \<and> (\<forall>p \<in> set (finallyLog s). tasks s p = None)
      \<and> distinct (finallyLog s)
      \<and> (\<forall>p t. tasks s p = Some t \<longrightarrow> Launches p \<in> set (returned s))
      \<and> (\<forall>p. (settled s p = None) = (p \<notin> set (finallyLog s))))"

subsection \<open>The caller-facing error (\<^verbatim>\<open>src/lib/bus/errorMapping.ts\<close>)\<close>


















subsection \<open>Example values\<close>

text \<open>A configured environment, a request for predictions at one stop, and upstream payloads.\<close>

definition example_env :: environment where
  "example_env =
     \<lparr> env_apiKey = Some ''secret'', env_rtpidatafeed = None, env_ctaDateIso = (\<lambda>s. None) \<rparr>"

definition example_options :: bus_request_options where
  "example_options =
     \<lparr> opt_endpoint = ''getpredictions'', opt_params = Some [(''stpid'', PString ''1836'')],
       opt_requiredParams = Some [''stpid''], opt_cacheKey = None, opt_cacheTtlMs = Some 15000,
       opt_timeoutMs = None, opt_maxRetries = None \<rparr>"

definition example_request :: bus_request where
  "example_request =
     \<lparr> req_endpoint = ''getpredictions'',
       req_normalizedParams = [(''stpid'', ''1836''), (''rtpidatafeed'', ''ctabus''), (''format'', ''json'')],
       req_cacheKey = ''getpredictions?format=json&rtpidatafeed=ctabus&stpid=1836'',
       req_cacheTtlMs = 15000, req_timeoutMs = 7000, req_maxRetries = 2,
       req_requestParams =
         [(''stpid'', ''1836''), (''rtpidatafeed'', ''ctabus''), (''format'', ''json''),
          (''key'', ''secret'')] \<rparr>"

text \<open>The body \<^verbatim>\<open>{"bustime-response": {"error": [{"msg": "No arrival times"}]}}\<close>.\<close>

definition soft_payload :: "unit bustime_payload" where
  "soft_payload =
     \<lparr> p_tmst = None, p_error = Some [\<lparr> raw_code = None, raw_msg = Some ''No arrival times'' \<rparr>],
       p_fields = () \<rparr>"

definition plain_payload :: "unit bustime_payload" where
  "plain_payload = \<lparr> p_tmst = None, p_error = None, p_fields = () \<rparr>"

text \<open>
  A trace: a call at time 0 launches task 0; its \<^verbatim>\<open>fetch\<close> answers 200, the body parses at
  time 1000 and is cached until 16000, the \<^verbatim>\<open>finally\<close> callback runs; a second call at time
  20000 finds the entry expired and launches task 1, which stays in flight.
\<close>

definition example_trace :: "unit event list" where
  "example_trace =
     [Call example_options 0,
      FetchSettles 0 (Responded \<lparr> resp_status = 200 \<rparr>),
      JsonSettles 0 (Envelope plain_payload) 1000,
      FinallyRuns 0,
      Call example_options 20000]"

text \<open>
  A second trace, on one cache key: a call with \<^verbatim>\<open>cacheTtl = 15000\<close> at time 0 is answered
  and cached until 16000; a call with \<^verbatim>\<open>cacheTtl = 0\<close> at time 2000 skips the cache and
  launches task 1; while task 1 is in flight, a call with \<^verbatim>\<open>cacheTtl = 15000\<close> arrives at
  time 3000; then task 1 is answered and settles.
\<close>

definition example_trace_mixed :: "unit event list" where
  "example_trace_mixed =
     [Call example_options 0,
      FetchSettles 0 (Responded \<lparr> resp_status = 200 \<rparr>),
      JsonSettles 0 (Envelope plain_payload) 1000,
      FinallyRuns 0,
      Call (example_options \<lparr> opt_cacheTtlMs := Some 0 \<rparr>) 2000,
      Call example_options 3000,
      FetchSettles 1 (Responded \<lparr> resp_status = 200 \<rparr>),
      JsonSettles 1 (Envelope plain_payload) 4000,
      FinallyRuns 1]"

text \<open>A third trace: the body of the launched request fails (the response is not JSON).\<close>

definition example_trace_failed :: "unit event list" where
  "example_trace_failed =
     [Call example_options 0,
      FetchSettles 0 (Responded \<lparr> resp_status = 200 \<rparr>),
      JsonSettles 0 InvalidJson 1000]"


text \<open>The body \<^verbatim>\<open>{"bustime-response": {"error": [{"msg": message}]}}\<close>.\<close>

definition failure_payload :: "string \<Rightarrow> unit bustime_payload" where
  "failure_payload message =
     \<lparr> p_tmst = None, p_error = Some [\<lparr> raw_code = None, raw_msg = Some message \<rparr>],
       p_fields = () \<rparr>"

text \<open>
  The body \<^verbatim>\<open>{"bustime-response": {"error": [{"msg": "No data found"}, {"msg": "No arrival times"}]}}\<close>.
\<close>

definition two_soft_payload :: "unit bustime_payload" where
  "two_soft_payload =
     \<lparr> p_tmst = None,
       p_error = Some [\<lparr> raw_code = None, raw_msg = Some ''No data found'' \<rparr>,
                       \<lparr> raw_code = None, raw_msg = Some ''No arrival times'' \<rparr>],
       p_fields = () \<rparr>"


section \<open>Properties\<close>

subsection \<open>The retry loop\<close>

lemma fetchWithRetry_attempt_not_ok:
  assumes "\<not> resp_ok r"
  shows "fetchWithRetry_attempt attempt maxRetries (Responded r) =
     (if int attempt \<le> maxRetries then Retry
      else Throw ((BusClientError ''CTA_BUS_HTTP_ERROR''
                    (''CTA bus tracker returned '' @ number_toString (resp_status r) @ ''.''))
                  \<lparr> err_status := resp_status r \<rparr>))"
  using assms by (simp add: fetchWithRetry_attempt_def fetchWithRetry_catch_def Let_def)

text \<open>
  Against an upstream that answers every attempt with the same response that is not ok
  (any status outside 200 to 299, below 500 or not), the loop runs until the attempt number
  exceeds \<open>maxRetries\<close> and then throws the HTTP error of the last response.
\<close>

lemma fetchWithRetry_from_not_ok:
  assumes up: "\<And>n. upstream n = Responded r" and nok: "\<not> resp_ok r"
  shows "int a \<le> maxRetries \<Longrightarrow> fetchWithRetry_from upstream maxRetries a =
     (nat maxRetries + 1, Inl ((BusClientError ''CTA_BUS_HTTP_ERROR''
                    (''CTA bus tracker returned '' @ number_toString (resp_status r) @ ''.''))
                  \<lparr> err_status := resp_status r \<rparr>))"
proof (induction "nat (maxRetries - int a)" arbitrary: a)
  case 0
  then have "\<not> int (a + 1) \<le> maxRetries" "a + 1 = nat maxRetries + 1" by auto
  then show ?case
    by (subst fetchWithRetry_from.simps) (simp add: up fetchWithRetry_attempt_not_ok [OF nok] Let_def)
next
  case (Suc k)
  then have le: "int (a + 1) \<le> maxRetries" and k: "k = nat (maxRetries - int (a + 1))" by auto
  have "fetchWithRetry_from upstream maxRetries a = fetchWithRetry_from upstream maxRetries (a + 1)"
    using le by (subst fetchWithRetry_from.simps) (simp add: up fetchWithRetry_attempt_not_ok [OF nok] Let_def)
  then show ?case using Suc.hyps(1) [OF k le] by simp
qed

lemma number_toString_503: "number_toString 503 = ''503''"
  by (simp add: number_toString_def nat_toString.simps digit_chars_def)

lemma number_toString_400: "number_toString 400 = ''400''"
  by (simp add: number_toString_def nat_toString.simps digit_chars_def)

text \<open>
  C2, evaluated at the failing input: an upstream that answers 400 to every attempt, with the
  default \<open>maxRetries = 2\<close>. The HTTP error thrown for the 400 is caught by the loop's own
  \<^verbatim>\<open>catch\<close>, which retries every \<^verbatim>\<open>BusClientError\<close> while attempts remain: three attempts are
  made, not one.
\<close>

theorem fetchWithRetry_retries_400:
  "fetchWithRetry (\<lambda>n. Responded \<lparr> resp_status = 400 \<rparr>) DEFAULT_MAX_RETRIES =
     (3, Inl ((BusClientError ''CTA_BUS_HTTP_ERROR'' ''CTA bus tracker returned 400.'')
                \<lparr> err_status := 400 \<rparr>))"
proof -
  have nok: "\<not> resp_ok \<lparr> resp_status = 400 \<rparr>" by (simp add: resp_ok_def)
  show ?thesis
    using fetchWithRetry_from_not_ok [of "\<lambda>n. Responded \<lparr> resp_status = 400 \<rparr>" _ 0 2, OF _ nok]
    by (simp add: fetchWithRetry_def DEFAULT_MAX_RETRIES_def number_toString_400)
qed

text \<open>
  C3 as stated fails: with \<open>maxRetries = 2\<close> and an upstream that always answers 503, the
  error raised after the three attempts has neither the code \<^verbatim>\<open>UPSTREAM_REQUEST_FAILED\<close> (nor
  the client's \<^verbatim>\<open>CTA_BUS_REQUEST_FAILED\<close>, which it keeps for failures to reach the service)
  nor the status 502.
\<close>

theorem fetchWithRetry_503_not_request_failed:
  "\<not> (\<exists>e. snd (fetchWithRetry (\<lambda>n. Responded \<lparr> resp_status = 503 \<rparr>) 2) = Inl e
          \<and> (err_code e = ''UPSTREAM_REQUEST_FAILED'' \<or> err_code e = ''CTA_BUS_REQUEST_FAILED''
               \<or> err_status e = 502))"
proof -
  have nok: "\<not> resp_ok \<lparr> resp_status = 503 \<rparr>" by (simp add: resp_ok_def)
  have "fetchWithRetry (\<lambda>n. Responded \<lparr> resp_status = 503 \<rparr>) 2 =
     (3, Inl ((BusClientError ''CTA_BUS_HTTP_ERROR'' ''CTA bus tracker returned 503.'')
                \<lparr> err_status := 503 \<rparr>))"
    using fetchWithRetry_from_not_ok [of "\<lambda>n. Responded \<lparr> resp_status = 503 \<rparr>" _ 0 2, OF _ nok]
    by (simp add: fetchWithRetry_def number_toString_503)
  then show ?thesis by (auto simp: BusClientError_def)
qed

text \<open>
  C3, amended: if the upstream answers 503 to every attempt and \<open>maxRetries\<close> is not
  negative, \<^verbatim>\<open>fetchWithRetry\<close> makes exactly \<open>maxRetries + 1\<close> attempts and then raises a
  \<^verbatim>\<open>BusClientError\<close> with the code \<^verbatim>\<open>CTA_BUS_HTTP_ERROR\<close> and the upstream's status, 503.
\<close>

theorem fetchWithRetry_always_503:
  assumes "\<forall>n. upstream n = Responded \<lparr> resp_status = 503 \<rparr>" and "0 \<le> maxRetries"
  shows "fetchWithRetry upstream maxRetries =
           (nat maxRetries + 1,
            Inl ((BusClientError ''CTA_BUS_HTTP_ERROR'' ''CTA bus tracker returned 503.'')
                   \<lparr> err_status := 503 \<rparr>))"
proof -
  have nok: "\<not> resp_ok \<lparr> resp_status = 503 \<rparr>" by (simp add: resp_ok_def)
  have "fetchWithRetry_from upstream maxRetries 0 =
     (nat maxRetries + 1, Inl ((BusClientError ''CTA_BUS_HTTP_ERROR''
                    (''CTA bus tracker returned '' @ number_toString (resp_status \<lparr> resp_status = 503 \<rparr>) @ ''.''))
                  \<lparr> err_status := resp_status \<lparr> resp_status = 503 \<rparr> \<rparr>))"
    using assms by (intro fetchWithRetry_from_not_ok [OF _ nok]) auto
  then show ?thesis by (simp add: fetchWithRetry_def number_toString_503)
qed

theorem fetchWithRetry_always_503_witness:
  "fetchWithRetry (\<lambda>n. Responded \<lparr> resp_status = 503 \<rparr>) 2 =
     (3, Inl ((BusClientError ''CTA_BUS_HTTP_ERROR'' ''CTA bus tracker returned 503.'')
                \<lparr> err_status := 503 \<rparr>))"
  using fetchWithRetry_always_503 [of "\<lambda>n. Responded \<lparr> resp_status = 503 \<rparr>" 2] by simp

subsection \<open>Results served from the cache\<close>

text \<open>
  C10: the result served from the cache is the cached result with \<^verbatim>\<open>servedFromCache\<close> set:
  the payload is the cached payload, every other field of the meta is unchanged, and
  \<^verbatim>\<open>servedFromCache\<close> is true.
\<close>

theorem toCachedResult_frame:
  "toCachedResult entry =
     (entry_value entry) \<lparr> res_meta := (res_meta (entry_value entry)) \<lparr> meta_servedFromCache := True \<rparr> \<rparr>
   \<and> res_payload (toCachedResult entry) = res_payload (entry_value entry)
   \<and> meta_endpoint (res_meta (toCachedResult entry)) = meta_endpoint (res_meta (entry_value entry))
   \<and> meta_params (res_meta (toCachedResult entry)) = meta_params (res_meta (entry_value entry))
   \<and> meta_cacheKey (res_meta (toCachedResult entry)) = meta_cacheKey (res_meta (entry_value entry))
   \<and> meta_cacheTtlMs (res_meta (toCachedResult entry)) = meta_cacheTtlMs (res_meta (entry_value entry))
   \<and> meta_cacheExpiresAt (res_meta (toCachedResult entry))
       = meta_cacheExpiresAt (res_meta (entry_value entry))
   \<and> meta_sourceTimestamp (res_meta (toCachedResult entry))
       = meta_sourceTimestamp (res_meta (entry_value entry))
   \<and> meta_reason (res_meta (toCachedResult entry)) = meta_reason (res_meta (entry_value entry))
   \<and> meta_servedFromCache (res_meta (toCachedResult entry)) = True"
  by (simp add: toCachedResult_def)

subsection \<open>Canonical parameters and the cache key\<close>

lemma update_fresh: "k \<notin> fst ` set al \<Longrightarrow> AList.update k v al = al @ [(k, v)]"
  by (induction al) auto

lemma normalize_foldl:
  "distinct (map fst ps) \<Longrightarrow> fst ` set acc \<inter> fst ` set ps = {} \<Longrightarrow>
   foldl (\<lambda>normalized (key, v).
            if is_blank v then normalized else AList.update key (stringify v) normalized) acc ps
   = acc @ map (\<lambda>(k, v). (k, stringify v)) (filter (\<lambda>(k, v). \<not> is_blank v) ps)"
proof (induction ps arbitrary: acc)
  case Nil
  then show ?case by simp
next
  case (Cons a ps)
  obtain k v where a: "a = (k, v)" by (cases a)
  show ?case
  proof (cases "is_blank v")
    case True
    then show ?thesis using Cons a by auto
  next
    case False
    have fresh: "k \<notin> fst ` set acc" using Cons.prems a by auto
    have disj: "fst ` set (acc @ [(k, stringify v)]) \<inter> fst ` set ps = {}"
      using Cons.prems a by auto
    show ?thesis
      using False a Cons.IH [OF _ disj] Cons.prems(1) by (simp add: update_fresh [OF fresh])
  qed
qed

lemma normalizeParams_distinct:
  "distinct (map fst ps) \<Longrightarrow>
   normalizeParams ps = map (\<lambda>(k, v). (k, stringify v)) (filter (\<lambda>(k, v). \<not> is_blank v) ps)"
  unfolding normalizeParams_def using normalize_foldl [of ps "[]"] by simp

lemma is_blank_iff: "is_blank v = (v = PUndefined \<or> v = PNull \<or> v = PString [])"
  by (cases v) (auto simp: is_blank_def)

lemma normalizeParams_keys_distinct:
  "distinct (map fst ps) \<Longrightarrow> distinct (map fst (normalizeParams ps))"
proof -
  assume d: "distinct (map fst ps)"
  have "map fst (normalizeParams ps) = map fst (filter (\<lambda>(k, v). \<not> is_blank v) ps)"
    by (simp add: normalizeParams_distinct [OF d] comp_def case_prod_unfold)
  then show ?thesis using d by (simp add: distinct_map_filter)
qed

lemma normalizeParams_set:
  "distinct (map fst ps) \<Longrightarrow> distinct (map fst qs) \<Longrightarrow> set ps = set qs \<Longrightarrow>
   set (normalizeParams ps) = set (normalizeParams qs)"
  by (simp add: normalizeParams_distinct)

lemma serializeParams_set:
  assumes "distinct (map fst p)" "distinct (map fst q)" "set p = set q"
  shows "serializeParams p = serializeParams q"
proof -
  have m: "map_of p = map_of q" using assms by (simp add: map_of_inject_set)
  have "mset (map fst p) = mset (map fst q)"
    using assms by (metis set_eq_iff_mset_eq_distinct set_map)
  then have "sort (map fst p) = sort (map fst q)"
    by (metis properties_for_sort sorted_sort mset_sort)
  then show ?thesis by (simp add: serializeParams_def m)
qed

lemma update_set:
  "distinct (map fst al) \<Longrightarrow> set (AList.update k v al) = insert (k, v) {x \<in> set al. fst x \<noteq> k}"
  by (induction al) (auto simp: image_iff)

lemma update_same:
  assumes "distinct (map fst p)" "distinct (map fst q)" "set p = set q"
  shows "set (AList.update k v p) = set (AList.update k v q)"
  using assms by (simp add: update_set)

lemma cond_update_same:
  assumes "distinct (map fst p)" "distinct (map fst q)" "set p = set q"
  shows "distinct (map fst (if c then AList.update k v p else p))"
    and "distinct (map fst (if c then AList.update k v q else q))"
    and "set (if c then AList.update k v p else p) = set (if c then AList.update k v q else q)"
  using assms by (cases c; simp add: update_set AList.distinct_update)+

lemma defaults_same:
  assumes "distinct (map fst p)" "distinct (map fst q)" "set p = set q"
  shows "distinct (map fst (callBusApi_defaults env p))
       \<and> distinct (map fst (callBusApi_defaults env q))
       \<and> set (callBusApi_defaults env p) = set (callBusApi_defaults env q)"
proof -
  have m: "map_of p = map_of q" using assms by (simp add: map_of_inject_set)
  define c1 where "c1 = (\<not> truthy_opt (map_of q ''rtpidatafeed'') \<and> truthy (CTA_BUS_RTPIDATAFEED env))"
  define p1 where "p1 = (if c1 then AList.update ''rtpidatafeed'' (CTA_BUS_RTPIDATAFEED env) p else p)"
  define q1 where "q1 = (if c1 then AList.update ''rtpidatafeed'' (CTA_BUS_RTPIDATAFEED env) q else q)"
  have s1: "distinct (map fst p1)" "distinct (map fst q1)" "set p1 = set q1"
    unfolding p1_def q1_def by (rule cond_update_same [OF assms])+
  then have m1: "map_of p1 = map_of q1" by (simp only: map_of_inject_set)
  define c2 where "c2 = (\<not> truthy_opt (map_of q1 ''format''))"
  have p: "callBusApi_defaults env p = (if c2 then AList.update ''format'' ''json'' p1 else p1)"
    by (simp only: callBusApi_defaults_def Let_def m flip: c1_def p1_def) (simp only: m1 c2_def)
  have q: "callBusApi_defaults env q = (if c2 then AList.update ''format'' ''json'' q1 else q1)"
    by (simp only: callBusApi_defaults_def Let_def flip: c1_def q1_def) (simp only: c2_def)
  show ?thesis
    unfolding p q using cond_update_same [OF s1] by blast
qed

lemma computeCacheKey_set:
  assumes "distinct (map fst p)" "distinct (map fst q)" "set p = set q"
  shows "computeCacheKey endpoint p supplied = computeCacheKey endpoint q supplied"
  by (simp add: computeCacheKey_def serializeParams_set [OF assms])

lemma request_key_same:
  assumes d1: "distinct (map fst ps)" and d2: "distinct (map fst qs)" and eq: "set ps = set qs"
  shows "map_sum err_code req_cacheKey (callBusApi_request env (options \<lparr> opt_params := Some ps \<rparr>))
       = map_sum err_code req_cacheKey (callBusApi_request env (options \<lparr> opt_params := Some qs \<rparr>))"
proof -
  have m: "map_of ps = map_of qs" using map_of_inject_set [OF d1 d2] eq by blast
  have miss: "is_missing ps k = is_missing qs k" for k
    by (simp only: is_missing_def m)
  have fnd: "find (is_missing ps) ks = find (is_missing qs) ks" for ks
    by (rule find_cong) (simp_all only: miss)
  have n: "distinct (map fst (normalizeParams ps))" "distinct (map fst (normalizeParams qs))"
     "set (normalizeParams ps) = set (normalizeParams qs)"
    by (rule normalizeParams_keys_distinct [OF d1], rule normalizeParams_keys_distinct [OF d2],
        rule normalizeParams_set [OF d1 d2 eq])
  note ds = defaults_same [OF n, of env]
  have key: "computeCacheKey (opt_endpoint options) (callBusApi_defaults env (normalizeParams ps)) (opt_cacheKey options)
           = computeCacheKey (opt_endpoint options) (callBusApi_defaults env (normalizeParams qs)) (opt_cacheKey options)"
    by (rule computeCacheKey_set) (use ds in blast)+
  show ?thesis
  proof (cases "ensureApiKey env")
    case (Some e)
    then show ?thesis by (simp add: callBusApi_request_def)
  next
    case None
    show ?thesis
    proof (cases "find (is_missing qs) (case opt_requiredParams options of Some ks \<Rightarrow> ks | None \<Rightarrow> [])")
      case (Some k)
      then show ?thesis using None by (simp add: callBusApi_request_def Let_def fnd)
    next
      case no: None
      then show ?thesis using None by (simp add: callBusApi_request_def Let_def fnd key)
    qed
  qed
qed

text \<open>
  C8: two parameter objects with the same entries, whatever their insertion orders, give the
  same cache key, both from \<^verbatim>\<open>computeCacheKey\<close> on the normalised parameters and as
  \<^verbatim>\<open>callBusApi\<close> derives it (after the defaults; a call rejected for a missing parameter is
  rejected for the other order too). Normalisation keeps exactly the entries whose value is
  not undefined, null or the empty string, and the serialisation runs through the keys in
  sorted order.
\<close>

theorem cache_key_insertion_order:
  assumes "distinct (map fst ps)" and "distinct (map fst qs)" and "set ps = set qs"
  shows "computeCacheKey endpoint (normalizeParams ps) supplied
           = computeCacheKey endpoint (normalizeParams qs) supplied
       \<and> map_sum err_code req_cacheKey (callBusApi_request env (options \<lparr> opt_params := Some ps \<rparr>))
           = map_sum err_code req_cacheKey (callBusApi_request env (options \<lparr> opt_params := Some qs \<rparr>))
       \<and> normalizeParams ps
           = map (\<lambda>(k, v). (k, stringify v))
               (filter (\<lambda>(k, v). v \<noteq> PUndefined \<and> v \<noteq> PNull \<and> v \<noteq> PString []) ps)
       \<and> serializeParams (normalizeParams ps)
           = join ''&''
               (map (\<lambda>k. k @ ''='' @ encodeURIComponent (the (map_of (normalizeParams ps) k)))
                  (sort (map fst (normalizeParams ps))))"
proof -
  have a: "computeCacheKey endpoint (normalizeParams ps) supplied
           = computeCacheKey endpoint (normalizeParams qs) supplied"
    by (rule computeCacheKey_set [OF normalizeParams_keys_distinct [OF assms(1)]
          normalizeParams_keys_distinct [OF assms(2)] normalizeParams_set [OF assms]])
  have b: "normalizeParams ps
           = map (\<lambda>(k, v). (k, stringify v))
               (filter (\<lambda>(k, v). v \<noteq> PUndefined \<and> v \<noteq> PNull \<and> v \<noteq> PString []) ps)"
    using assms(1) by (simp add: normalizeParams_distinct is_blank_iff)
  have c: "serializeParams np
           = join ''&'' (map (\<lambda>k. k @ ''='' @ encodeURIComponent (the (map_of np k))) (sort (map fst np)))"
    for np
  proof -
    have "map_of np k \<noteq> None" if "k \<in> set (sort (map fst np))" for k
      using that by (auto simp: map_of_eq_None_iff)
    then show ?thesis
      unfolding serializeParams_def by (intro arg_cong [where f = "join ''&''"] map_cong) force+
  qed
  show ?thesis using a b c [of "normalizeParams ps"] request_key_same [OF assms, of env options] by (intro conjI)
qed

theorem cache_key_insertion_order_witness:
  "computeCacheKey ''getpredictions''
     (normalizeParams [(''rt'', PString ''22''), (''vid'', PUndefined), (''stpid'', PNumber 1836), (''top'', PString [])]) None
   = computeCacheKey ''getpredictions''
     (normalizeParams [(''top'', PString []), (''stpid'', PNumber 1836), (''rt'', PString ''22''), (''vid'', PUndefined)]) None
   \<and> computeCacheKey ''getpredictions''
     (normalizeParams [(''top'', PString []), (''stpid'', PNumber 1836), (''rt'', PString ''22''), (''vid'', PUndefined)]) None
   = ''getpredictions?rt=22&stpid=1836''"
proof -
  have d: "distinct (map fst [(''rt'', PString ''22''), (''vid'', PUndefined), (''stpid'', PNumber 1836), (''top'', PString [])])"
       "distinct (map fst [(''top'', PString []), (''stpid'', PNumber 1836), (''rt'', PString ''22''), (''vid'', PUndefined)])"
       "set [(''rt'', PString ''22''), (''vid'', PUndefined), (''stpid'', PNumber 1836), (''top'', PString [])]
        = set [(''top'', PString []), (''stpid'', PNumber 1836), (''rt'', PString ''22''), (''vid'', PUndefined)]"
    by auto
  have v: "computeCacheKey ''getpredictions''
     (normalizeParams [(''top'', PString []), (''stpid'', PNumber 1836), (''rt'', PString ''22''), (''vid'', PUndefined)]) None
   = ''getpredictions?rt=22&stpid=1836''"
    by code_simp
  show ?thesis
    by (rule conjI [OF conjunct1 [OF cache_key_insertion_order [OF d]] v])
qed

subsection \<open>Soft errors\<close>

lemma find_soft_in_table:
  "find P SOFT_ERROR_PATTERNS = Some pattern \<Longrightarrow> snd pattern \<in> snd ` set SOFT_ERROR_PATTERNS"
  by (auto simp: find_Some_iff in_set_conv_nth intro!: imageI)

lemma classifySoftError_in_table:
  "classifySoftError errs = Some r \<Longrightarrow> r \<in> snd ` set SOFT_ERROR_PATTERNS"
proof (induction errs)
  case Nil
  then show ?case by simp
next
  case (Cons err errs)
  then show ?case
    by (auto split: if_splits option.splits dest: find_soft_in_table)
qed

lemma soft_reasons_truthy: "r \<in> snd ` set SOFT_ERROR_PATTERNS \<Longrightarrow> truthy r"
  by (auto simp: SOFT_ERROR_PATTERNS_def truthy_def)

lemma classifySoftError_matches:
  assumes "err \<in> set errs" and "raw_msg err = Some m" and "m \<noteq> []"
      and "(re, r0) \<in> set SOFT_ERROR_PATTERNS" and "regex_test re m"
  shows "\<exists>r. classifySoftError errs = Some r"
  using assms(1)
proof (induction errs)
  case Nil
  then show ?case by simp
next
  case (Cons e errs)
  show ?case
  proof (cases "e = err")
    case True
    have "find (\<lambda>pattern. regex_test (fst pattern) m) SOFT_ERROR_PATTERNS \<noteq> None"
    proof -
      have "\<exists>x. x \<in> set SOFT_ERROR_PATTERNS \<and> regex_test (fst x) m"
        using assms(4,5) by (intro exI [of _ "(re, r0)"]) simp
      then show ?thesis by (simp only: find_None_iff not_not)
    qed
    then show ?thesis using True assms(2,3) by (auto simp: truthy_opt_def truthy_def)
  next
    case False
    then have "err \<in> set errs" using Cons.prems by simp
    then obtain r where "classifySoftError errs = Some r" using Cons.IH by blast
    then show ?thesis by (auto split: option.splits)
  qed
qed

lemma callBusApi_classify_soft:
  assumes "p_error payload = Some errs" and "classifySoftError errs = Some r"
  shows "callBusApi_classify req ts payload = Inr (payload \<lparr> p_error := None \<rparr>, Some r)"
proof -
  obtain first others where e: "errs = first # others"
    using assms(2) by (cases errs) auto
  have "truthy r" using classifySoftError_in_table [OF assms(2)] by (rule soft_reasons_truthy)
  then show ?thesis
    using assms e by (simp add: callBusApi_classify_def Let_def truthy_opt_def del: classifySoftError.simps)
qed

lemma example_request_eq: "callBusApi_request example_env example_options = Inr example_request"
  by code_simp

lemma classify_soft_payload:
  "classifySoftError [\<lparr> raw_code = None, raw_msg = Some ''No arrival times'' \<rparr>] = Some ''No arrival times available.''"
  by code_simp

lemma find_SomeD2: "find P xs = Some x \<Longrightarrow> P x \<and> x \<in> set xs"
  by (induction xs) (auto split: if_splits)

lemma find_NoneD2: "find P xs = None \<Longrightarrow> x \<in> set xs \<Longrightarrow> \<not> P x"
  by (induction xs) (auto split: if_splits)

text \<open>
  The nested loops of \<^verbatim>\<open>classifySoftError\<close>: the first error, in the order of the array,
  whose message is non-empty and matches a pattern, and for its message the first pattern,
  in the order of the table, that matches it.
\<close>

lemma classifySoftError_find:
  "classifySoftError errs
     = (case find (\<lambda>err. truthy_opt (raw_msg err)
                         \<and> (\<exists>pattern \<in> set SOFT_ERROR_PATTERNS.
                               regex_test (fst pattern) (the (raw_msg err)))) errs of
          None \<Rightarrow> None
        | Some err \<Rightarrow>
            map_option snd
              (find (\<lambda>pattern. regex_test (fst pattern) (the (raw_msg err))) SOFT_ERROR_PATTERNS))"
proof (induction errs)
  case Nil
  then show ?case by simp
next
  case (Cons err errs)
  show ?case
  proof (cases "truthy_opt (raw_msg err)")
    case False
    then show ?thesis using Cons.IH by simp
  next
    case True
    show ?thesis
    proof (cases "find (\<lambda>pattern. regex_test (fst pattern) (the (raw_msg err))) SOFT_ERROR_PATTERNS")
      case None
      then have "\<not> (\<exists>pattern \<in> set SOFT_ERROR_PATTERNS. regex_test (fst pattern) (the (raw_msg err)))"
        by (auto simp: find_None_iff)
      then show ?thesis using True None Cons.IH by simp
    next
      case (Some pattern)
      then have "\<exists>pattern \<in> set SOFT_ERROR_PATTERNS. regex_test (fst pattern) (the (raw_msg err))"
        using find_SomeD2 [OF Some] by blast
      then show ?thesis using True Some by simp
    qed
  qed
qed

lemma two_soft_reason:
  "classifySoftError [\<lparr> raw_code = None, raw_msg = Some ''No data found'' \<rparr>,
                      \<lparr> raw_code = None, raw_msg = Some ''No arrival times'' \<rparr>]
     = Some ''No data found for parameters.''"
  by code_simp

text \<open>
  C6 as stated fails when the array holds more than one soft message: in
  \<^verbatim>\<open>{error: [{msg: "No data found"}, {msg: "No arrival times"}]}\<close> the message
  \<^verbatim>\<open>No arrival times\<close> matches the pattern \<^verbatim>\<open>/no arrival times/i\<close>, whose explanation is
  \<^verbatim>\<open>No arrival times available.\<close>; the call succeeds, but \<^verbatim>\<open>meta.reason\<close> is
  \<^verbatim>\<open>No data found for parameters.\<close>, the explanation of the pattern of the first message.
\<close>

theorem soft_reason_of_first_message:
  "\<lparr> raw_code = None, raw_msg = Some ''No arrival times'' \<rparr> \<in> set (the (p_error two_soft_payload))
   \<and> ([''no arrival times''], ''No arrival times available.'') \<in> set SOFT_ERROR_PATTERNS
   \<and> regex_test [''no arrival times''] ''No arrival times''
   \<and> (case callBusApi_body example_env example_request (Envelope two_soft_payload) 1000 of
         (Inl e, w) \<Rightarrow> False
       | (Inr result, w) \<Rightarrow>
           meta_reason (res_meta result) = Some ''No data found for parameters.''
           \<and> meta_reason (res_meta result) \<noteq> Some ''No arrival times available.'')"
proof -
  have p: "p_error two_soft_payload
             = Some [\<lparr> raw_code = None, raw_msg = Some ''No data found'' \<rparr>,
                     \<lparr> raw_code = None, raw_msg = Some ''No arrival times'' \<rparr>]"
    by (simp add: two_soft_payload_def)
  have 1: "\<lparr> raw_code = None, raw_msg = Some ''No arrival times'' \<rparr> \<in> set (the (p_error two_soft_payload))"
    by (simp add: p)
  have 2: "([''no arrival times''], ''No arrival times available.'') \<in> set SOFT_ERROR_PATTERNS"
    by (simp add: SOFT_ERROR_PATTERNS_def)
  have 3: "regex_test [''no arrival times''] ''No arrival times''" by code_simp
  have c: "callBusApi_classify example_request None two_soft_payload
             = Inr (two_soft_payload \<lparr> p_error := None \<rparr>, Some ''No data found for parameters.'')"
    by (rule callBusApi_classify_soft [OF p two_soft_reason])
  have t: "parseTimestampToIso example_env (p_tmst two_soft_payload) = None"
    by (simp add: parseTimestampToIso_def truthy_opt_def two_soft_payload_def)
  have 4: "case callBusApi_body example_env example_request (Envelope two_soft_payload) 1000 of
         (Inl e, w) \<Rightarrow> False
       | (Inr result, w) \<Rightarrow>
           meta_reason (res_meta result) = Some ''No data found for parameters.''
           \<and> meta_reason (res_meta result) \<noteq> Some ''No arrival times available.''"
    by (simp add: callBusApi_body_def Let_def t c)
  show ?thesis using 1 2 3 4 by (intro conjI)
qed

text \<open>
  C6, amended: when a non-empty message of the upstream \<^verbatim>\<open>error\<close> array matches a soft
  pattern, the body of \<^verbatim>\<open>callBusApi\<close> does not throw: it settles with a result whose payload
  is the upstream payload without its \<^verbatim>\<open>error\<close> field and whose \<^verbatim>\<open>meta.reason\<close> is the
  explanation of one pattern of the table, chosen as follows: take the first error of the
  array, in order, whose message is non-empty and matches some pattern; the pattern is the
  first of the table, in order, that matches this message. When every pattern that matches a
  message of the array has the same explanation (so whenever only one message of the array
  matches, and it matches one pattern), this is the explanation of the pattern of the
  hypothesis. The witness is the body \<^verbatim>\<open>{error: [{msg: "No arrival times"}]}\<close>, with the
  reason \<^verbatim>\<open>No arrival times available.\<close>, and the body
  \<^verbatim>\<open>{error: [{msg: "No buses were found"}]}\<close>, with the reason \<^verbatim>\<open>No active vehicles found.\<close>
\<close>

theorem soft_error_succeeds:
  assumes "p_error payload = Some errs" and "err \<in> set errs" and "raw_msg err = Some m" and "m \<noteq> []"
      and "(re, r0) \<in> set SOFT_ERROR_PATTERNS" and "regex_test re m"
  shows "\<exists>r result w err' re'.
           find (\<lambda>err. truthy_opt (raw_msg err)
                       \<and> (\<exists>pattern \<in> set SOFT_ERROR_PATTERNS.
                             regex_test (fst pattern) (the (raw_msg err)))) errs = Some err'
           \<and> find (\<lambda>pattern. regex_test (fst pattern) (the (raw_msg err'))) SOFT_ERROR_PATTERNS
               = Some (re', r)
           \<and> (re', r) \<in> set [([''no data found''], ''No data found for parameters.''),
                              ([''no service scheduled''], ''No service scheduled at this time.''),
                              ([''no arrival times''], ''No arrival times available.''),
                              ([''no predictions''], ''No predictions are currently available.''),
                              ([''no buses were found''], ''No active vehicles found.'')]
           \<and> classifySoftError errs = Some r
           \<and> callBusApi_body env req (Envelope payload) now = (Inr result, w)
           \<and> res_payload result = payload \<lparr> p_error := None \<rparr>
           \<and> meta_reason (res_meta result) = Some r
           \<and> ((\<forall>err \<in> set errs. \<forall>pattern \<in> set SOFT_ERROR_PATTERNS.
                  truthy_opt (raw_msg err) \<and> regex_test (fst pattern) (the (raw_msg err))
                    \<longrightarrow> snd pattern = r0)
                \<longrightarrow> r = r0)"
proof -
  obtain r where r: "classifySoftError errs = Some r"
    using classifySoftError_matches [OF assms(2-6)] by blast
  obtain err' where e: "find (\<lambda>err. truthy_opt (raw_msg err)
                       \<and> (\<exists>pattern \<in> set SOFT_ERROR_PATTERNS.
                             regex_test (fst pattern) (the (raw_msg err)))) errs = Some err'"
    using r by (subst (asm) classifySoftError_find) (auto split: option.splits)
  have "map_option snd
          (find (\<lambda>pattern. regex_test (fst pattern) (the (raw_msg err'))) SOFT_ERROR_PATTERNS) = Some r"
    using r by (subst (asm) classifySoftError_find) (simp add: e)
  then obtain re' where f: "find (\<lambda>pattern. regex_test (fst pattern) (the (raw_msg err'))) SOFT_ERROR_PATTERNS
               = Some (re', r)"
    by auto
  have t: "(re', r) \<in> set SOFT_ERROR_PATTERNS" "regex_test re' (the (raw_msg err'))"
    using find_SomeD2 [OF f] by simp_all
  have t': "(re', r) \<in> set [([''no data found''], ''No data found for parameters.''),
                              ([''no service scheduled''], ''No service scheduled at this time.''),
                              ([''no arrival times''], ''No arrival times available.''),
                              ([''no predictions''], ''No predictions are currently available.''),
                              ([''no buses were found''], ''No active vehicles found.'')]"
    using t(1) unfolding SOFT_ERROR_PATTERNS_def .
  have e': "err' \<in> set errs" "truthy_opt (raw_msg err')"
    using find_SomeD2 [OF e] by simp_all
  have u: "(\<forall>err \<in> set errs. \<forall>pattern \<in> set SOFT_ERROR_PATTERNS.
                  truthy_opt (raw_msg err) \<and> regex_test (fst pattern) (the (raw_msg err))
                    \<longrightarrow> snd pattern = r0)
                \<longrightarrow> r = r0"
  proof
    assume "\<forall>err \<in> set errs. \<forall>pattern \<in> set SOFT_ERROR_PATTERNS.
                  truthy_opt (raw_msg err) \<and> regex_test (fst pattern) (the (raw_msg err))
                    \<longrightarrow> snd pattern = r0"
    then have "snd (re', r) = r0" using e' t by fastforce
    then show "r = r0" by simp
  qed
  obtain result w where b: "callBusApi_body env req (Envelope payload) now = (Inr result, w)"
     and p: "res_payload result = payload \<lparr> p_error := None \<rparr>"
     and q: "meta_reason (res_meta result) = Some r"
    using callBusApi_classify_soft [OF assms(1) r]
    by (simp add: callBusApi_body_def Let_def)
  show ?thesis using e f t' r b p q u by blast
qed

theorem soft_error_succeeds_witness:
  "(\<exists>result w. callBusApi_body example_env example_request (Envelope soft_payload) 1000 = (Inr result, w)
       \<and> res_payload result = soft_payload \<lparr> p_error := None \<rparr>
       \<and> meta_reason (res_meta result) = Some ''No arrival times available.'')
   \<and> (\<exists>result w. callBusApi_body example_env example_request
                     (Envelope (failure_payload ''No buses were found'')) 1000 = (Inr result, w)
       \<and> res_payload result = failure_payload ''No buses were found'' \<lparr> p_error := None \<rparr>
       \<and> meta_reason (res_meta result) = Some ''No active vehicles found.'')"
proof -
  have inst: "\<exists>result w. callBusApi_body example_env example_request (Envelope payload) 1000 = (Inr result, w)
       \<and> res_payload result = payload \<lparr> p_error := None \<rparr>
       \<and> meta_reason (res_meta result) = Some r0"
    if e: "p_error payload = Some [\<lparr> raw_code = None, raw_msg = Some m \<rparr>]"
      and ne: "m \<noteq> []"
      and t: "(re, r0) \<in> set SOFT_ERROR_PATTERNS"
      and m: "regex_test re m"
      and u: "\<forall>pattern \<in> set SOFT_ERROR_PATTERNS. regex_test (fst pattern) m \<longrightarrow> snd pattern = r0"
    for payload :: "unit bustime_payload" and m re r0
  proof -
    have i: "\<lparr> raw_code = None, raw_msg = Some m \<rparr> \<in> set [\<lparr> raw_code = None, raw_msg = Some m \<rparr>]"
      by simp
    have g: "raw_msg \<lparr> raw_code = None, raw_msg = Some m \<rparr> = Some m"
      by simp
    have a: "\<forall>err \<in> set [\<lparr> raw_code = None, raw_msg = Some m \<rparr>]. \<forall>pattern \<in> set SOFT_ERROR_PATTERNS.
                  truthy_opt (raw_msg err) \<and> regex_test (fst pattern) (the (raw_msg err))
                    \<longrightarrow> snd pattern = r0"
      using u by simp
    obtain r result w where
      b: "callBusApi_body example_env example_request (Envelope payload) 1000 = (Inr result, w)"
      and p: "res_payload result = payload \<lparr> p_error := None \<rparr>"
      and q: "meta_reason (res_meta result) = Some r"
      and v: "(\<forall>err \<in> set [\<lparr> raw_code = None, raw_msg = Some m \<rparr>]. \<forall>pattern \<in> set SOFT_ERROR_PATTERNS.
                  truthy_opt (raw_msg err) \<and> regex_test (fst pattern) (the (raw_msg err))
                    \<longrightarrow> snd pattern = r0)
                \<longrightarrow> r = r0"
      using soft_error_succeeds [OF e i g ne t m, of example_env example_request 1000] by blast
    have "r = r0" using v a by blast
    then show ?thesis using b p q by blast
  qed
  have r1: "\<not> regex_test [''no data found''] ''No arrival times''"
           "\<not> regex_test [''no service scheduled''] ''No arrival times''"
           "regex_test [''no arrival times''] ''No arrival times''"
           "\<not> regex_test [''no predictions''] ''No arrival times''"
           "\<not> regex_test [''no buses were found''] ''No arrival times''"
    by code_simp+
  have r2: "\<not> regex_test [''no data found''] ''No buses were found''"
           "\<not> regex_test [''no service scheduled''] ''No buses were found''"
           "\<not> regex_test [''no arrival times''] ''No buses were found''"
           "\<not> regex_test [''no predictions''] ''No buses were found''"
           "regex_test [''no buses were found''] ''No buses were found''"
    by code_simp+
  have 1: "\<exists>result w. callBusApi_body example_env example_request (Envelope soft_payload) 1000 = (Inr result, w)
       \<and> res_payload result = soft_payload \<lparr> p_error := None \<rparr>
       \<and> meta_reason (res_meta result) = Some ''No arrival times available.''"
  proof (rule inst [where m = "''No arrival times''" and re = "[''no arrival times'']"])
    show "p_error soft_payload = Some [\<lparr> raw_code = None, raw_msg = Some ''No arrival times'' \<rparr>]"
      by (simp add: soft_payload_def)
    show "''No arrival times'' \<noteq> []" by simp
    show "([''no arrival times''], ''No arrival times available.'') \<in> set SOFT_ERROR_PATTERNS"
      by (simp add: SOFT_ERROR_PATTERNS_def)
    show "regex_test [''no arrival times''] ''No arrival times''" by (rule r1(3))
    show "\<forall>pattern \<in> set SOFT_ERROR_PATTERNS.
            regex_test (fst pattern) ''No arrival times'' \<longrightarrow> snd pattern = ''No arrival times available.''"
      by (simp add: SOFT_ERROR_PATTERNS_def r1)
  qed
  have 2: "\<exists>result w. callBusApi_body example_env example_request
                     (Envelope (failure_payload ''No buses were found'')) 1000 = (Inr result, w)
       \<and> res_payload result = failure_payload ''No buses were found'' \<lparr> p_error := None \<rparr>
       \<and> meta_reason (res_meta result) = Some ''No active vehicles found.''"
  proof (rule inst [where m = "''No buses were found''" and re = "[''no buses were found'']"])
    show "p_error (failure_payload ''No buses were found'')
            = Some [\<lparr> raw_code = None, raw_msg = Some ''No buses were found'' \<rparr>]"
      by (simp add: failure_payload_def)
    show "''No buses were found'' \<noteq> []" by simp
    show "([''no buses were found''], ''No active vehicles found.'') \<in> set SOFT_ERROR_PATTERNS"
      by (simp add: SOFT_ERROR_PATTERNS_def)
    show "regex_test [''no buses were found''] ''No buses were found''" by (rule r2(5))
    show "\<forall>pattern \<in> set SOFT_ERROR_PATTERNS.
            regex_test (fst pattern) ''No buses were found'' \<longrightarrow> snd pattern = ''No active vehicles found.''"
      by (simp add: SOFT_ERROR_PATTERNS_def r2)
  qed
  show ?thesis using 1 2 by (intro conjI)
qed

subsection \<open>One call of \<^verbatim>\<open>callBusApi\<close>\<close>

text \<open>The four ways a call returns.\<close>

lemma callBusApi_cases [case_names rejects hit joins launches]:
  obtains
    (rejects) e where "callBusApi_request env options = Inl e"
      and "callBusApi env options now s = (Rejects e, s)"
  | (hit) req entry where "callBusApi_request env options = Inr req"
      and "req_cacheTtlMs req > 0" and "responseCache s (req_cacheKey req) = Some entry"
      and "entry_expiresAt entry > now"
      and "callBusApi env options now s = (CacheHit (toCachedResult entry), s)"
  | (joins) req p where "callBusApi_request env options = Inr req"
      and "\<not> (req_cacheTtlMs req > 0
               \<and> (\<exists>entry. responseCache s (req_cacheKey req) = Some entry \<and> entry_expiresAt entry > now))"
      and "inFlightRequests s (req_cacheKey req) = Some p"
      and "callBusApi env options now s = (Joins p, s)"
  | (launches) req where "callBusApi_request env options = Inr req"
      and "\<not> (req_cacheTtlMs req > 0
               \<and> (\<exists>entry. responseCache s (req_cacheKey req) = Some entry \<and> entry_expiresAt entry > now))"
      and "inFlightRequests s (req_cacheKey req) = None"
      and "callBusApi env options now s =
             (Launches (nextPromise s),
              s \<lparr> tasks := (tasks s)(nextPromise s \<mapsto>
                      \<lparr> task_request = req, task_url = request_url req, task_phase = Fetching 1 \<rparr>),
                  inFlightRequests := (inFlightRequests s)(req_cacheKey req \<mapsto> nextPromise s),
                  nextPromise := nextPromise s + 1,
                  fetchLog := fetchLog s @ [(nextPromise s, request_url req)] \<rparr>)"
proof (cases "callBusApi_request env options")
  case (Inl e)
  then show ?thesis using rejects by (simp add: callBusApi_def)
next
  case (Inr req)
  show ?thesis
  proof (cases "req_cacheTtlMs req > 0
               \<and> (\<exists>entry. responseCache s (req_cacheKey req) = Some entry \<and> entry_expiresAt entry > now)")
    case True
    then obtain entry where "responseCache s (req_cacheKey req) = Some entry" "entry_expiresAt entry > now"
      by blast
    then show ?thesis using hit [OF Inr] True by (simp add: callBusApi_def Inr)
  next
    case False
    then have c: "callBusApi env options now s = callBusApi_coalesce req s"
      by (auto simp: callBusApi_def Inr split: option.splits)
    show ?thesis
    proof (cases "inFlightRequests s (req_cacheKey req)")
      case None
      then show ?thesis using launches [OF Inr False None] c
        by (simp add: callBusApi_coalesce_def Let_def)
    next
      case (Some p)
      then show ?thesis using joins [OF Inr False Some] c
        by (simp add: callBusApi_coalesce_def)
    qed
  qed
qed

subsection \<open>Cache writes\<close>

lemma callBusApi_body_write:
  "snd (callBusApi_body env req body now)
     = (case fst (callBusApi_body env req body now) of
          Inl e \<Rightarrow> None
        | Inr result \<Rightarrow>
            if req_cacheTtlMs req > 0
            then Some (req_cacheKey req,
                       \<lparr> entry_value = result, entry_expiresAt = now + req_cacheTtlMs req \<rparr>)
            else None)"
proof (cases body)
  case InvalidJson
  then show ?thesis by (simp add: callBusApi_body_def)
next
  case NoEnvelope
  then show ?thesis by (simp add: callBusApi_body_def)
next
  case (Envelope payload)
  show ?thesis
  proof (cases "callBusApi_classify req (parseTimestampToIso env (p_tmst payload)) payload")
    case (Inl e)
    then show ?thesis using Envelope by (simp add: callBusApi_body_def Let_def)
  next
    case (Inr pr)
    then show ?thesis using Envelope by (cases pr) (simp add: callBusApi_body_def Let_def)
  qed
qed

lemma callBusApi_cacheWrites: "cacheWrites (snd (callBusApi env options now s)) = cacheWrites s"
  by (cases env options now s rule: callBusApi_cases) simp_all

lemma fetch_settles_cacheWrites: "cacheWrites (fetch_settles p outcome s) = cacheWrites s"
  by (simp add: fetch_settles_def split: option.split phase.split retry_decision.split)

lemma finally_runs_cacheWrites: "cacheWrites (finally_runs p s) = cacheWrites s"
  by (simp add: finally_runs_def split: option.split phase.split)

lemma json_settles_cacheWrites:
  "cacheWrites (json_settles env p body now s)
     = cacheWrites s @
         (case tasks s p of
            None \<Rightarrow> []
          | Some t \<Rightarrow>
              if task_phase t = Parsing
              then (case snd (callBusApi_body env (task_request t) body now) of
                      None \<Rightarrow> [] | Some (key, entry) \<Rightarrow> [key])
              else [])"
proof (cases "tasks s p")
  case None
  then show ?thesis by (simp add: json_settles_def)
next
  case (Some t)
  show ?thesis
  proof (cases "task_phase t")
    case Parsing
    obtain out w where b: "callBusApi_body env (task_request t) body now = (out, w)"
      by (cases "callBusApi_body env (task_request t) body now")
    show ?thesis
      using Some Parsing b by (cases w) (auto simp: json_settles_def)
  qed (use Some in \<open>simp_all add: json_settles_def\<close>)
qed

lemma callBusApi_responseCache: "responseCache (snd (callBusApi env options now s)) = responseCache s"
  by (cases env options now s rule: callBusApi_cases) simp_all

lemma fetch_settles_responseCache: "responseCache (fetch_settles p outcome s) = responseCache s"
  by (simp add: fetch_settles_def split: option.split phase.split retry_decision.split)

lemma finally_runs_responseCache: "responseCache (finally_runs p s) = responseCache s"
  by (simp add: finally_runs_def split: option.split phase.split)

lemma json_settles_responseCache:
  "responseCache (json_settles env p body now s)
     = (case tasks s p of
          None \<Rightarrow> responseCache s
        | Some t \<Rightarrow>
            if task_phase t = Parsing
            then (case snd (callBusApi_body env (task_request t) body now) of
                    None \<Rightarrow> responseCache s
                  | Some (key, entry) \<Rightarrow> (responseCache s)(key \<mapsto> entry))
            else responseCache s)"
proof (cases "tasks s p")
  case None
  then show ?thesis by (simp add: json_settles_def)
next
  case (Some t)
  show ?thesis
  proof (cases "task_phase t")
    case Parsing
    obtain out w where b: "callBusApi_body env (task_request t) body now = (out, w)"
      by (cases "callBusApi_body env (task_request t) body now")
    show ?thesis
      using Some Parsing b by (cases w) (auto simp: json_settles_def)
  qed (use Some in \<open>simp_all add: json_settles_def\<close>)
qed

lemma json_settles_task:
  assumes "tasks s p = Some t" and "task_phase t = Parsing"
  shows "tasks (json_settles env p body now s) p
           = Some (t \<lparr> task_phase := Settled (fst (callBusApi_body env (task_request t) body now)) \<rparr>)"
proof -
  obtain out w where b: "callBusApi_body env (task_request t) body now = (out, w)"
    by (cases "callBusApi_body env (task_request t) body now")
  show ?thesis
    using assms b by (cases w) (auto simp: json_settles_def)
qed

lemma example_parsing_task:
  "tasks (run example_env (take 2 example_trace) init_state) 0
     = Some \<lparr> task_request = example_request, task_url = request_url example_request,
              task_phase = Parsing \<rparr>"
  by code_simp

lemma example_parsing_task_uncached:
  "tasks (run example_env
            [Call (example_options \<lparr> opt_cacheTtlMs := Some 0 \<rparr>) 0,
             FetchSettles 0 (Responded \<lparr> resp_status = 200 \<rparr>)] (init_state :: unit client_state)) 0
     = Some \<lparr> task_request = example_request \<lparr> req_cacheTtlMs := 0 \<rparr>,
              task_url = request_url example_request, task_phase = Parsing \<rparr>"
  by code_simp

text \<open>
  C4 as stated fails: a call with \<^verbatim>\<open>cacheTtl = 15000\<close> whose upstream body is classified
  as the soft condition \<^verbatim>\<open>No arrival times\<close> does write its result to the cache
  (line 348 tests the TTL only): when \<^verbatim>\<open>response.json()\<close> settles with that body at time
  1000 for the launched task, \<^verbatim>\<open>responseCache\<close> holds the result under the call's key.
\<close>

theorem soft_error_is_cached:
  "classifySoftError (the (p_error soft_payload)) = Some ''No arrival times available.''
   \<and> req_cacheTtlMs example_request = 15000
   \<and> snd (callBusApi_body example_env example_request (Envelope soft_payload) 1000)
       = Some (req_cacheKey example_request,
               \<lparr> entry_value =
                   \<lparr> res_payload = plain_payload,
                     res_meta =
                       \<lparr> meta_endpoint = ''getpredictions'',
                         meta_params = req_normalizedParams example_request,
                         meta_cacheKey = req_cacheKey example_request,
                         meta_cacheTtlMs = Some 15000, meta_cacheExpiresAt = Some 16000,
                         meta_servedFromCache = False, meta_sourceTimestamp = None,
                         meta_reason = Some ''No arrival times available.'' \<rparr> \<rparr>,
                 entry_expiresAt = 16000 \<rparr>)
   \<and> responseCache (run example_env (take 2 example_trace) init_state)
       (req_cacheKey example_request) = None
   \<and> responseCache
       (step example_env (JsonSettles 0 (Envelope soft_payload) 1000)
          (run example_env (take 2 example_trace) init_state))
       (req_cacheKey example_request)
       = Some \<lparr> entry_value =
                   \<lparr> res_payload = plain_payload,
                     res_meta =
                       \<lparr> meta_endpoint = ''getpredictions'',
                         meta_params = req_normalizedParams example_request,
                         meta_cacheKey = req_cacheKey example_request,
                         meta_cacheTtlMs = Some 15000, meta_cacheExpiresAt = Some 16000,
                         meta_servedFromCache = False, meta_sourceTimestamp = None,
                         meta_reason = Some ''No arrival times available.'' \<rparr> \<rparr>,
                 entry_expiresAt = 16000 \<rparr>"
proof -
  have p: "p_error soft_payload = Some [\<lparr> raw_code = None, raw_msg = Some ''No arrival times'' \<rparr>]"
    by (simp add: soft_payload_def)
  have 1: "classifySoftError (the (p_error soft_payload)) = Some ''No arrival times available.''"
    by (simp only: p option.sel classify_soft_payload)
  have 2: "req_cacheTtlMs example_request = 15000" by (simp add: example_request_def)
  have c: "callBusApi_classify example_request None soft_payload
             = Inr (soft_payload \<lparr> p_error := None \<rparr>, Some ''No arrival times available.'')"
    by (rule callBusApi_classify_soft [OF p classify_soft_payload])
  have t: "parseTimestampToIso example_env (p_tmst soft_payload) = None"
    by (simp add: parseTimestampToIso_def truthy_opt_def soft_payload_def)
  have e: "soft_payload \<lparr> p_error := None \<rparr> = plain_payload"
    by (simp add: soft_payload_def plain_payload_def)
  have 3: "snd (callBusApi_body example_env example_request (Envelope soft_payload) 1000)
       = Some (req_cacheKey example_request,
               \<lparr> entry_value =
                   \<lparr> res_payload = plain_payload,
                     res_meta =
                       \<lparr> meta_endpoint = ''getpredictions'',
                         meta_params = req_normalizedParams example_request,
                         meta_cacheKey = req_cacheKey example_request,
                         meta_cacheTtlMs = Some 15000, meta_cacheExpiresAt = Some 16000,
                         meta_servedFromCache = False, meta_sourceTimestamp = None,
                         meta_reason = Some ''No arrival times available.'' \<rparr> \<rparr>,
                 entry_expiresAt = 16000 \<rparr>)"
    by (simp add: callBusApi_body_def Let_def t c e 2) (simp add: example_request_def)
  have 4: "responseCache (run example_env (take 2 example_trace) init_state)
             (req_cacheKey example_request) = None"
    by code_simp
  have 5: "responseCache
       (step example_env (JsonSettles 0 (Envelope soft_payload) 1000)
          (run example_env (take 2 example_trace) init_state))
       (req_cacheKey example_request)
       = Some \<lparr> entry_value =
                   \<lparr> res_payload = plain_payload,
                     res_meta =
                       \<lparr> meta_endpoint = ''getpredictions'',
                         meta_params = req_normalizedParams example_request,
                         meta_cacheKey = req_cacheKey example_request,
                         meta_cacheTtlMs = Some 15000, meta_cacheExpiresAt = Some 16000,
                         meta_servedFromCache = False, meta_sourceTimestamp = None,
                         meta_reason = Some ''No arrival times available.'' \<rparr> \<rparr>,
                 entry_expiresAt = 16000 \<rparr>"
    unfolding step_def event.case json_settles_responseCache example_parsing_task option.case
    by (simp add: 3)
  show ?thesis using 1 2 3 4 5 by (intro conjI)
qed

text \<open>
  C4, amended: the body of a launched call writes to the cache if and only if the call has
  \<^verbatim>\<open>cacheTtl > 0\<close> and settled with a success, soft-empty successes included; the entry
  written is that result, under the call's cache key, expiring \<^verbatim>\<open>cacheTtl\<close> after the
  settlement. So a call with \<^verbatim>\<open>cacheTtl = 0\<close> never writes and a call that ends in a
  \<^verbatim>\<open>BusClientError\<close> never writes.

  Of the cache itself, for every step of the client from every state: when
  \<^verbatim>\<open>response.json()\<close> settles for a task that awaits it, the task settles with the outcome of
  the body, and \<^verbatim>\<open>responseCache\<close> afterwards is \<^verbatim>\<open>responseCache\<close> before with that one entry
  set if the outcome is a success and \<^verbatim>\<open>cacheTtl > 0\<close>, and is unchanged otherwise;
  \<^verbatim>\<open>invalidateBusCache\<close> removes the keys its predicate selects (all keys without one); every
  other step (a call that is rejected, served from the cache, joined or launched, a
  \<^verbatim>\<open>fetch\<close> that settles, whether the task retries, fails or goes on, and the \<^verbatim>\<open>finally\<close>
  callback) leaves \<^verbatim>\<open>responseCache\<close> as it is. The log of cache writes grows by the key
  written, and only then.
\<close>

theorem cache_write_iff:
  "(snd (callBusApi_body env req body now) \<noteq> None)
     = (req_cacheTtlMs req > 0 \<and> (\<exists>result. fst (callBusApi_body env req body now) = Inr result))
   \<and> snd (callBusApi_body env req body now)
     = (case fst (callBusApi_body env req body now) of
          Inl e \<Rightarrow> None
        | Inr result \<Rightarrow>
            if req_cacheTtlMs req > 0
            then Some (req_cacheKey req,
                       \<lparr> entry_value = result, entry_expiresAt = now + req_cacheTtlMs req \<rparr>)
            else None)
   \<and> cacheWrites (step env ev s)
     = cacheWrites s @
         (case ev of
            JsonSettles p body' now' \<Rightarrow>
              (case tasks s p of
                 None \<Rightarrow> []
               | Some t \<Rightarrow>
                   if task_phase t = Parsing
                   then (case snd (callBusApi_body env (task_request t) body' now') of
                           None \<Rightarrow> [] | Some (key, entry) \<Rightarrow> [key])
                   else [])
          | _ \<Rightarrow> [])
   \<and> responseCache (step env ev s)
     = (case ev of
          JsonSettles p body' now' \<Rightarrow>
            (case tasks s p of
               None \<Rightarrow> responseCache s
             | Some t \<Rightarrow>
                 if task_phase t = Parsing
                 then (case fst (callBusApi_body env (task_request t) body' now') of
                         Inl e \<Rightarrow> responseCache s
                       | Inr result \<Rightarrow>
                           if req_cacheTtlMs (task_request t) > 0
                           then (responseCache s)
                                  (req_cacheKey (task_request t) \<mapsto>
                                     \<lparr> entry_value = result,
                                       entry_expiresAt = now' + req_cacheTtlMs (task_request t) \<rparr>)
                           else responseCache s)
                 else responseCache s)
        | Invalidate predicate \<Rightarrow>
            (\<lambda>key. if (case predicate of None \<Rightarrow> True | Some matches \<Rightarrow> matches key) then None
                    else responseCache s key)
        | _ \<Rightarrow> responseCache s)
   \<and> (\<forall>p body' now' t.
         ev = JsonSettles p body' now' \<and> tasks s p = Some t \<and> task_phase t = Parsing
           \<longrightarrow> tasks (step env ev s) p
                 = Some (t \<lparr> task_phase :=
                              Settled (fst (callBusApi_body env (task_request t) body' now')) \<rparr>))"
proof -
  note b = callBusApi_body_write [of env req body now]
  have a: "(snd (callBusApi_body env req body now) \<noteq> None)
     = (req_cacheTtlMs req > 0 \<and> (\<exists>result. fst (callBusApi_body env req body now) = Inr result))"
    by (subst b) (cases "fst (callBusApi_body env req body now)"; simp)
  have c: "cacheWrites (step env ev s)
     = cacheWrites s @
         (case ev of
            JsonSettles p body' now' \<Rightarrow>
              (case tasks s p of
                 None \<Rightarrow> []
               | Some t \<Rightarrow>
                   if task_phase t = Parsing
                   then (case snd (callBusApi_body env (task_request t) body' now') of
                           None \<Rightarrow> [] | Some (key, entry) \<Rightarrow> [key])
                   else [])
          | _ \<Rightarrow> [])"
  proof (cases ev)
    case (Call options now')
    then show ?thesis
      using callBusApi_cacheWrites [of env options now' s]
      by (simp add: step_def case_prod_unfold)
  next
    case (FetchSettles p outcome)
    then show ?thesis by (simp add: step_def fetch_settles_cacheWrites)
  next
    case (JsonSettles p body' now')
    then show ?thesis by (simp only: step_def event.case json_settles_cacheWrites)
  next
    case (FinallyRuns p)
    then show ?thesis by (simp add: step_def finally_runs_cacheWrites)
  next
    case (Invalidate predicate)
    then show ?thesis by (simp add: step_def invalidateBusCache_def)
  qed
  have d: "responseCache (step env ev s)
     = (case ev of
          JsonSettles p body' now' \<Rightarrow>
            (case tasks s p of
               None \<Rightarrow> responseCache s
             | Some t \<Rightarrow>
                 if task_phase t = Parsing
                 then (case fst (callBusApi_body env (task_request t) body' now') of
                         Inl e \<Rightarrow> responseCache s
                       | Inr result \<Rightarrow>
                           if req_cacheTtlMs (task_request t) > 0
                           then (responseCache s)
                                  (req_cacheKey (task_request t) \<mapsto>
                                     \<lparr> entry_value = result,
                                       entry_expiresAt = now' + req_cacheTtlMs (task_request t) \<rparr>)
                           else responseCache s)
                 else responseCache s)
        | Invalidate predicate \<Rightarrow>
            (\<lambda>key. if (case predicate of None \<Rightarrow> True | Some matches \<Rightarrow> matches key) then None
                    else responseCache s key)
        | _ \<Rightarrow> responseCache s)"
  proof (cases ev)
    case (Call options now')
    then show ?thesis
      using callBusApi_responseCache [of env options now' s]
      by (simp add: step_def case_prod_unfold)
  next
    case (FetchSettles p outcome)
    then show ?thesis by (simp add: step_def fetch_settles_responseCache)
  next
    case (JsonSettles p body' now')
    show ?thesis
    proof (cases "tasks s p")
      case None
      then show ?thesis using JsonSettles by (simp add: step_def json_settles_responseCache)
    next
      case (Some t)
      note w = callBusApi_body_write [of env "task_request t" body' now']
      show ?thesis
        using JsonSettles Some
        by (cases "fst (callBusApi_body env (task_request t) body' now')")
           (simp_all add: step_def json_settles_responseCache w)
    qed
  next
    case (FinallyRuns p)
    then show ?thesis by (simp add: step_def finally_runs_responseCache)
  next
    case (Invalidate predicate)
    then show ?thesis by (simp add: step_def invalidateBusCache_def)
  qed
  have e: "\<forall>p body' now' t.
         ev = JsonSettles p body' now' \<and> tasks s p = Some t \<and> task_phase t = Parsing
           \<longrightarrow> tasks (step env ev s) p
                 = Some (t \<lparr> task_phase :=
                              Settled (fst (callBusApi_body env (task_request t) body' now')) \<rparr>)"
    by (auto simp: step_def json_settles_task)
  show ?thesis using a b c d e by (intro conjI)
qed

theorem cache_write_iff_witness:
  "snd (callBusApi_body example_env example_request (InvalidJson :: unit json_outcome) 1000) = None
   \<and> snd (callBusApi_body example_env (example_request \<lparr> req_cacheTtlMs := 0 \<rparr>) (Envelope plain_payload) 1000) = None
   \<and> snd (callBusApi_body example_env example_request (Envelope plain_payload) 1000) \<noteq> None
   \<and> responseCache
       (step example_env (JsonSettles 0 (Envelope plain_payload) 1000)
          (run example_env (take 2 example_trace) init_state))
     = (responseCache (run example_env (take 2 example_trace) init_state))
         (req_cacheKey example_request \<mapsto>
            \<lparr> entry_value =
                \<lparr> res_payload = plain_payload,
                  res_meta =
                    \<lparr> meta_endpoint = ''getpredictions'',
                      meta_params = req_normalizedParams example_request,
                      meta_cacheKey = req_cacheKey example_request,
                      meta_cacheTtlMs = Some 15000, meta_cacheExpiresAt = Some 16000,
                      meta_servedFromCache = False, meta_sourceTimestamp = None,
                      meta_reason = None \<rparr> \<rparr>,
              entry_expiresAt = 16000 \<rparr>)
   \<and> responseCache
       (step example_env (JsonSettles 0 InvalidJson 1000)
          (run example_env (take 2 example_trace) init_state))
     = responseCache (run example_env (take 2 example_trace) init_state)
   \<and> responseCache
       (step example_env (JsonSettles 0 (Envelope plain_payload) 1000)
          (run example_env
             [Call (example_options \<lparr> opt_cacheTtlMs := Some 0 \<rparr>) 0,
              FetchSettles 0 (Responded \<lparr> resp_status = 200 \<rparr>)] init_state))
     = responseCache
         (run example_env
            [Call (example_options \<lparr> opt_cacheTtlMs := Some 0 \<rparr>) 0,
             FetchSettles 0 (Responded \<lparr> resp_status = 200 \<rparr>)] init_state)
   \<and> responseCache
       (step example_env (FetchSettles 0 (Responded \<lparr> resp_status = 500 \<rparr>))
          (run example_env (take 1 example_trace) (init_state :: unit client_state)))
     = responseCache (run example_env (take 1 example_trace) init_state)"
proof -
  have 1: "fst (callBusApi_body example_env example_request (InvalidJson :: unit json_outcome) 1000)
        = Inl ((BusClientError ''CTA_BUS_INVALID_RESPONSE'' ''CTA bus tracker returned invalid JSON.'')
                  \<lparr> err_endpoint := Some (req_endpoint example_request),
                    err_params := Some (req_normalizedParams example_request) \<rparr>)"
    by (simp add: callBusApi_body_def)
  have 3: "\<exists>result. fst (callBusApi_body example_env example_request (Envelope plain_payload) 1000) = Inr result"
    by (simp add: callBusApi_body_def callBusApi_classify_def plain_payload_def Let_def)
  have 4: "req_cacheTtlMs example_request > 0" by (simp add: example_request_def)
  have 2: "\<not> req_cacheTtlMs (example_request \<lparr> req_cacheTtlMs := 0 \<rparr>) > 0" by simp
  have 5: "fst (callBusApi_body example_env example_request (Envelope plain_payload) 1000)
             = Inr \<lparr> res_payload = plain_payload,
                     res_meta =
                       \<lparr> meta_endpoint = ''getpredictions'',
                         meta_params = req_normalizedParams example_request,
                         meta_cacheKey = req_cacheKey example_request,
                         meta_cacheTtlMs = Some 15000, meta_cacheExpiresAt = Some 16000,
                         meta_servedFromCache = False, meta_sourceTimestamp = None,
                         meta_reason = None \<rparr> \<rparr>"
    by (simp add: callBusApi_body_def callBusApi_classify_def plain_payload_def Let_def
          parseTimestampToIso_def truthy_opt_def)
       (simp add: example_request_def)
  have 6: "\<exists>result. fst (callBusApi_body example_env (example_request \<lparr> req_cacheTtlMs := 0 \<rparr>)
                           (Envelope plain_payload) 1000) = Inr result"
    by (simp add: callBusApi_body_def callBusApi_classify_def plain_payload_def Let_def)
  have a: "snd (callBusApi_body example_env example_request (InvalidJson :: unit json_outcome) 1000) = None"
    using conjunct1 [OF cache_write_iff [of example_env example_request "InvalidJson :: unit json_outcome" 1000]] 1
    by (metis Inl_Inr_False)
  have b: "snd (callBusApi_body example_env (example_request \<lparr> req_cacheTtlMs := 0 \<rparr>) (Envelope plain_payload) 1000) = None"
    using conjunct1 [OF cache_write_iff [of example_env "example_request \<lparr> req_cacheTtlMs := 0 \<rparr>" "Envelope plain_payload" 1000]] 2
    by blast
  have c: "snd (callBusApi_body example_env example_request (Envelope plain_payload) 1000) \<noteq> None"
    using conjunct1 [OF cache_write_iff [of example_env example_request "Envelope plain_payload" 1000]] 3 4
    by blast
  note cache = cache_write_iff [THEN conjunct2, THEN conjunct2, THEN conjunct2, THEN conjunct1]
  have d: "responseCache
       (step example_env (JsonSettles 0 (Envelope plain_payload) 1000)
          (run example_env (take 2 example_trace) init_state))
     = (responseCache (run example_env (take 2 example_trace) init_state))
         (req_cacheKey example_request \<mapsto>
            \<lparr> entry_value =
                \<lparr> res_payload = plain_payload,
                  res_meta =
                    \<lparr> meta_endpoint = ''getpredictions'',
                      meta_params = req_normalizedParams example_request,
                      meta_cacheKey = req_cacheKey example_request,
                      meta_cacheTtlMs = Some 15000, meta_cacheExpiresAt = Some 16000,
                      meta_servedFromCache = False, meta_sourceTimestamp = None,
                      meta_reason = None \<rparr> \<rparr>,
              entry_expiresAt = 16000 \<rparr>)"
    using cache [of example_env "JsonSettles 0 (Envelope plain_payload) 1000"
                    "run example_env (take 2 example_trace) init_state"]
    unfolding event.case example_parsing_task option.case
    by (simp add: 5) (simp add: example_request_def)
  have e: "responseCache
       (step example_env (JsonSettles 0 InvalidJson 1000)
          (run example_env (take 2 example_trace) init_state))
     = responseCache (run example_env (take 2 example_trace) init_state)"
    using cache [of example_env "JsonSettles 0 InvalidJson 1000"
                    "run example_env (take 2 example_trace) init_state"]
    unfolding event.case example_parsing_task option.case
    by (simp add: 1)
  have f: "responseCache
       (step example_env (JsonSettles 0 (Envelope plain_payload) 1000)
          (run example_env
             [Call (example_options \<lparr> opt_cacheTtlMs := Some 0 \<rparr>) 0,
              FetchSettles 0 (Responded \<lparr> resp_status = 200 \<rparr>)] init_state))
     = responseCache
         (run example_env
            [Call (example_options \<lparr> opt_cacheTtlMs := Some 0 \<rparr>) 0,
             FetchSettles 0 (Responded \<lparr> resp_status = 200 \<rparr>)] init_state)"
    using cache [of example_env "JsonSettles 0 (Envelope plain_payload) 1000"
                    "run example_env
                       [Call (example_options \<lparr> opt_cacheTtlMs := Some 0 \<rparr>) 0,
                        FetchSettles 0 (Responded \<lparr> resp_status = 200 \<rparr>)] init_state"] 6
    unfolding event.case example_parsing_task_uncached option.case
    by auto
  have g: "responseCache
       (step example_env (FetchSettles 0 (Responded \<lparr> resp_status = 500 \<rparr>))
          (run example_env (take 1 example_trace) (init_state :: unit client_state)))
     = responseCache (run example_env (take 1 example_trace) init_state)"
    using cache [of example_env "FetchSettles 0 (Responded \<lparr> resp_status = 500 \<rparr>)"
                    "run example_env (take 1 example_trace) (init_state :: unit client_state)"]
    by simp
  show ?thesis using a b c d e f g by (intro conjI)
qed

subsection \<open>Honouring the cache\<close>

lemma example_trace_entry:
  "responseCache (run example_env example_trace init_state) (req_cacheKey example_request)
     = Some \<lparr> entry_value =
                 \<lparr> res_payload = plain_payload,
                   res_meta =
                     \<lparr> meta_endpoint = ''getpredictions'',
                       meta_params = req_normalizedParams example_request,
                       meta_cacheKey = req_cacheKey example_request,
                       meta_cacheTtlMs = Some 15000, meta_cacheExpiresAt = Some 16000,
                       meta_servedFromCache = False, meta_sourceTimestamp = None,
                       meta_reason = None \<rparr> \<rparr>,
               entry_expiresAt = 16000 \<rparr>"
  by code_simp

lemma example_trace_in_flight:
  "inFlightRequests (run example_env example_trace init_state) (req_cacheKey example_request) = Some 1"
  by code_simp

text \<open>
  C5 as stated fails in its second half: after the example trace the cached entry (expiry
  16000) has expired and the request launched at time 20000 is still in flight; a call for
  the same key at time 20001, with \<^verbatim>\<open>cacheTtl = 15000\<close>, joins that request and triggers no
  upstream call, not exactly one.
\<close>

theorem expired_entry_joins_in_flight:
  "map_option entry_expiresAt
       (responseCache (run example_env example_trace init_state) (req_cacheKey example_request))
     = Some 16000
   \<and> opt_cacheTtlMs example_options = Some 15000
   \<and> fst (callBusApi example_env example_options 20001 (run example_env example_trace init_state))
     = Joins 1
   \<and> fetches_issued (run example_env example_trace init_state)
       (snd (callBusApi example_env example_options 20001 (run example_env example_trace init_state)))
     = 0"
proof -
  have 1: "map_option entry_expiresAt
       (responseCache (run example_env example_trace init_state) (req_cacheKey example_request))
     = Some 16000"
    by code_simp
  have 2: "opt_cacheTtlMs example_options = Some 15000" by (simp add: example_options_def)
  have 3: "fst (callBusApi example_env example_options 20001 (run example_env example_trace init_state))
     = Joins 1"
    by code_simp
  have 4: "fetches_issued (run example_env example_trace init_state)
       (snd (callBusApi example_env example_options 20001 (run example_env example_trace init_state)))
     = 0"
    by code_simp
  show ?thesis using 1 2 3 4 by (intro conjI)
qed

text \<open>
  C5, amended: for a request with \<^verbatim>\<open>cacheTtl > 0\<close> and a stored entry for its cache key: if
  the time of the call is before the entry's expiry, \<^verbatim>\<open>callBusApi\<close> returns the cached
  payload with \<^verbatim>\<open>servedFromCache = true\<close>, leaves the state as it is and issues no
  \<^verbatim>\<open>fetch\<close>; from the expiry instant on the entry is ignored (the call goes on as if the
  key were absent): it launches one upstream request, issuing its first \<^verbatim>\<open>fetch\<close>, when no
  request for the key is in flight, and joins the request in flight, issuing none, otherwise.
\<close>

theorem cache_honoring:
  assumes req: "callBusApi_request env options = Inr req"
      and ttl: "req_cacheTtlMs req > 0"
      and cached: "responseCache s (req_cacheKey req) = Some entry"
  shows "(now < entry_expiresAt entry \<longrightarrow>
            callBusApi env options now s = (CacheHit (toCachedResult entry), s)
            \<and> res_payload (toCachedResult entry) = res_payload (entry_value entry)
            \<and> meta_servedFromCache (res_meta (toCachedResult entry))
            \<and> fetches_issued s (snd (callBusApi env options now s)) = 0)
       \<and> (entry_expiresAt entry \<le> now \<longrightarrow>
            callBusApi env options now s = callBusApi_coalesce req s
            \<and> (inFlightRequests s (req_cacheKey req) = None \<longrightarrow>
                  fst (callBusApi env options now s) = Launches (nextPromise s)
                  \<and> fetchLog (snd (callBusApi env options now s))
                      = fetchLog s @ [(nextPromise s, request_url req)]
                  \<and> fetches_issued s (snd (callBusApi env options now s)) = 1)
            \<and> (\<forall>p. inFlightRequests s (req_cacheKey req) = Some p \<longrightarrow>
                  callBusApi env options now s = (Joins p, s)
                  \<and> fetches_issued s (snd (callBusApi env options now s)) = 0))"
proof (intro conjI impI allI)
  assume fresh: "now < entry_expiresAt entry"
  show "callBusApi env options now s = (CacheHit (toCachedResult entry), s)"
    using req ttl cached fresh by (simp add: callBusApi_def)
  then show "fetches_issued s (snd (callBusApi env options now s)) = 0"
    by (simp add: fetches_issued_def)
  show "res_payload (toCachedResult entry) = res_payload (entry_value entry)"
    by (simp add: toCachedResult_def)
  show "meta_servedFromCache (res_meta (toCachedResult entry))"
    by (simp add: toCachedResult_def)
next
  assume expired: "entry_expiresAt entry \<le> now"
  show c: "callBusApi env options now s = callBusApi_coalesce req s"
    using req ttl cached expired by (simp add: callBusApi_def)
  {
    assume none: "inFlightRequests s (req_cacheKey req) = None"
    show "fst (callBusApi env options now s) = Launches (nextPromise s)"
      using none by (simp add: c callBusApi_coalesce_def Let_def)
    show "fetchLog (snd (callBusApi env options now s)) = fetchLog s @ [(nextPromise s, request_url req)]"
      using none by (simp add: c callBusApi_coalesce_def Let_def)
    show "fetches_issued s (snd (callBusApi env options now s)) = 1"
      using none by (simp add: c callBusApi_coalesce_def Let_def fetches_issued_def)
  }
  {
    fix p assume some: "inFlightRequests s (req_cacheKey req) = Some p"
    show "callBusApi env options now s = (Joins p, s)"
      using some by (simp add: c callBusApi_coalesce_def)
    show "fetches_issued s (snd (callBusApi env options now s)) = 0"
      using some by (simp add: c callBusApi_coalesce_def fetches_issued_def)
  }
qed

theorem cache_honoring_witness:
  "callBusApi example_env example_options 15999 (run example_env example_trace init_state)
     = (CacheHit
          \<lparr> res_payload = plain_payload,
            res_meta =
              \<lparr> meta_endpoint = ''getpredictions'',
                meta_params = req_normalizedParams example_request,
                meta_cacheKey = req_cacheKey example_request,
                meta_cacheTtlMs = Some 15000, meta_cacheExpiresAt = Some 16000,
                meta_servedFromCache = True, meta_sourceTimestamp = None,
                meta_reason = None \<rparr> \<rparr>,
        run example_env example_trace init_state)
   \<and> callBusApi example_env example_options 20001 (run example_env example_trace init_state)
     = (Joins 1, run example_env example_trace init_state)"
proof -
  have ttl: "req_cacheTtlMs example_request > 0" by (simp add: example_request_def)
  note h = cache_honoring [OF example_request_eq ttl example_trace_entry]
  have a: "callBusApi example_env example_options 15999 (run example_env example_trace init_state)
     = (CacheHit
          \<lparr> res_payload = plain_payload,
            res_meta =
              \<lparr> meta_endpoint = ''getpredictions'',
                meta_params = req_normalizedParams example_request,
                meta_cacheKey = req_cacheKey example_request,
                meta_cacheTtlMs = Some 15000, meta_cacheExpiresAt = Some 16000,
                meta_servedFromCache = True, meta_sourceTimestamp = None,
                meta_reason = None \<rparr> \<rparr>,
        run example_env example_trace init_state)"
    using h [of 15999] by (simp add: toCachedResult_def)
  have b: "callBusApi example_env example_options 20001 (run example_env example_trace init_state)
     = (Joins 1, run example_env example_trace init_state)"
  proof -
    have e: "entry_expiresAt
               \<lparr> entry_value =
                   \<lparr> res_payload = plain_payload,
                     res_meta =
                       \<lparr> meta_endpoint = ''getpredictions'',
                         meta_params = req_normalizedParams example_request,
                         meta_cacheKey = req_cacheKey example_request,
                         meta_cacheTtlMs = Some 15000, meta_cacheExpiresAt = Some 16000,
                         meta_servedFromCache = False, meta_sourceTimestamp = None,
                         meta_reason = None \<rparr> \<rparr>,
                 entry_expiresAt = 16000 \<rparr> \<le> 20001"
      by simp
    show ?thesis
      by (rule h [of 20001, THEN conjunct2, rule_format, OF e, THEN conjunct2, THEN conjunct2,
            rule_format, OF example_trace_in_flight, THEN conjunct1])
  qed
  show ?thesis using a b by (intro conjI)
qed

subsection \<open>Single flight\<close>

text \<open>The invariant holds initially and every step of the client preserves it.\<close>

lemma single_flight_init: "single_flight init_state"
  by (simp add: single_flight_def init_state_def)

lemma single_flight_cong:
  assumes "inFlightRequests s' = inFlightRequests s" and "tasks s' = tasks s"
      and "nextPromise s' = nextPromise s" and "finallyLog s' = finallyLog s"
      and "returned s' = returned s" and "settled s' = settled s"
  shows "single_flight s' = single_flight s"
  by (simp only: single_flight_def assms)

lemma single_flight_returned:
  assumes "single_flight s"
  shows "single_flight (s \<lparr> returned := returned s @ [r] \<rparr>)"
  using assms unfolding single_flight_def by auto

lemma single_flight_launch:
  assumes inv: "single_flight s" and none: "inFlightRequests s (req_cacheKey req) = None"
  shows "single_flight
           (s \<lparr> tasks := (tasks s)(nextPromise s \<mapsto>
                    \<lparr> task_request = req, task_url = u, task_phase = ph \<rparr>),
                inFlightRequests := (inFlightRequests s)(req_cacheKey req \<mapsto> nextPromise s),
                nextPromise := nextPromise s + 1,
                fetchLog := fl,
                returned := returned s @ [Launches (nextPromise s)] \<rparr>)"
proof -
  have fresh: "tasks s (nextPromise s) = None" "nextPromise s \<notin> set (finallyLog s)"
    using inv unfolding single_flight_def by auto
  have nokey: "\<not> (\<exists>q t. tasks s q = Some t \<and> req_cacheKey (task_request t) = req_cacheKey req)"
    using inv none unfolding single_flight_def by (metis option.distinct(1))
  show ?thesis
    unfolding single_flight_def
  proof (intro conjI allI impI ballI)
    fix k p
    show "(inFlightRequests (s \<lparr> tasks := (tasks s)(nextPromise s \<mapsto>
                    \<lparr> task_request = req, task_url = u, task_phase = ph \<rparr>),
                inFlightRequests := (inFlightRequests s)(req_cacheKey req \<mapsto> nextPromise s),
                nextPromise := nextPromise s + 1,
                fetchLog := fl,
                returned := returned s @ [Launches (nextPromise s)] \<rparr>) k = Some p)
        = (\<exists>t. tasks (s \<lparr> tasks := (tasks s)(nextPromise s \<mapsto>
                    \<lparr> task_request = req, task_url = u, task_phase = ph \<rparr>),
                inFlightRequests := (inFlightRequests s)(req_cacheKey req \<mapsto> nextPromise s),
                nextPromise := nextPromise s + 1,
                fetchLog := fl,
                returned := returned s @ [Launches (nextPromise s)] \<rparr>) p = Some t
               \<and> req_cacheKey (task_request t) = k)"
      using inv fresh nokey unfolding single_flight_def by (auto split: if_splits)
  qed (use inv fresh in \<open>auto simp: single_flight_def split: if_splits\<close>)
qed

lemma single_flight_phase:
  assumes inv: "single_flight s" and t: "tasks s p = Some t"
  shows "single_flight (s \<lparr> tasks := (tasks s)(p \<mapsto> t \<lparr> task_phase := ph \<rparr>) \<rparr>)"
proof -
  have a: "(\<exists>t'. ((tasks s)(p \<mapsto> t \<lparr> task_phase := ph \<rparr>)) q = Some t'
                \<and> req_cacheKey (task_request t') = k)
         = (\<exists>t'. tasks s q = Some t' \<and> req_cacheKey (task_request t') = k)" for q k
    using t by (cases "q = p") auto
  have b: "(((tasks s)(p \<mapsto> t \<lparr> task_phase := ph \<rparr>)) q = None) = (tasks s q = None)" for q
    using t by (cases "q = p") auto
  have c: "(\<exists>t'. ((tasks s)(p \<mapsto> t \<lparr> task_phase := ph \<rparr>)) q = Some t') = (\<exists>t'. tasks s q = Some t')" for q
    using t by (cases "q = p") auto
  have d: "(((tasks s)(p \<mapsto> t \<lparr> task_phase := ph \<rparr>)) q = Some t') \<Longrightarrow> \<exists>t''. tasks s q = Some t''" for q t'
    using t by (cases "q = p") auto
  show ?thesis
    unfolding single_flight_def
  proof (intro conjI allI impI ballI)
    fix k q
    show "(inFlightRequests (s \<lparr> tasks := (tasks s)(p \<mapsto> t \<lparr> task_phase := ph \<rparr>) \<rparr>) k = Some q)
        = (\<exists>t'. tasks (s \<lparr> tasks := (tasks s)(p \<mapsto> t \<lparr> task_phase := ph \<rparr>) \<rparr>) q = Some t'
               \<and> req_cacheKey (task_request t') = k)"
      using inv a [of q k] unfolding single_flight_def by simp
  next
    fix q t'
    assume "tasks (s \<lparr> tasks := (tasks s)(p \<mapsto> t \<lparr> task_phase := ph \<rparr>) \<rparr>) q = Some t'"
    then obtain t'' where "tasks s q = Some t''" using d [of q t'] by auto
    then show "Launches q \<in> set (returned (s \<lparr> tasks := (tasks s)(p \<mapsto> t \<lparr> task_phase := ph \<rparr>) \<rparr>))"
      using inv unfolding single_flight_def by auto
  qed (use inv t in \<open>auto simp: single_flight_def split: if_splits\<close>)
qed

lemma single_flight_finally:
  assumes inv: "single_flight s" and t: "tasks s p = Some t"
  shows "single_flight
           (s \<lparr> inFlightRequests := (inFlightRequests s)(req_cacheKey (task_request t) := None),
                tasks := (tasks s)(p := None),
                settled := (settled s)(p \<mapsto> out),
                finallyLog := finallyLog s @ [p] \<rparr>)"
proof -
  have reg: "inFlightRequests s (req_cacheKey (task_request t)) = Some p"
    using inv t unfolding single_flight_def by blast
  have uniq: "q = p" if "tasks s q = Some u" "req_cacheKey (task_request u) = req_cacheKey (task_request t)" for q u
    using inv that reg unfolding single_flight_def by (metis option.inject)
  have notlogged: "p \<notin> set (finallyLog s)"
    using inv t unfolding single_flight_def by auto
  show ?thesis
    unfolding single_flight_def
  proof (intro conjI allI impI ballI)
    fix k q
    show "(inFlightRequests (s \<lparr> inFlightRequests := (inFlightRequests s)(req_cacheKey (task_request t) := None),
                tasks := (tasks s)(p := None), settled := (settled s)(p \<mapsto> out), finallyLog := finallyLog s @ [p] \<rparr>) k = Some q)
        = (\<exists>t'. tasks (s \<lparr> inFlightRequests := (inFlightRequests s)(req_cacheKey (task_request t) := None),
                tasks := (tasks s)(p := None), settled := (settled s)(p \<mapsto> out), finallyLog := finallyLog s @ [p] \<rparr>) q = Some t'
               \<and> req_cacheKey (task_request t') = k)"
    proof (cases "k = req_cacheKey (task_request t)")
      case True
      then show ?thesis using uniq by auto
    next
      case False
      have "(inFlightRequests s k = Some q) = (\<exists>t'. tasks s q = Some t' \<and> req_cacheKey (task_request t') = k)"
        using inv unfolding single_flight_def by blast
      then show ?thesis using False t by auto
    qed
  qed (use inv notlogged t in \<open>auto simp: single_flight_def split: if_splits\<close>)
qed

lemma single_flight_fetch_settles:
  assumes inv: "single_flight s"
  shows "single_flight (fetch_settles p outcome s)"
proof (cases "tasks s p")
  case None
  then show ?thesis using inv by (simp add: fetch_settles_def)
next
  case (Some t)
  have upd: "single_flight (s \<lparr> tasks := (tasks s)(p \<mapsto> t \<lparr> task_phase := ph \<rparr>), fetchLog := fl \<rparr>)" for ph fl
    using single_flight_phase [OF inv Some, of ph]
    by (subst single_flight_cong [of _ "s \<lparr> tasks := (tasks s)(p \<mapsto> t \<lparr> task_phase := ph \<rparr>) \<rparr>"]) simp_all
  show ?thesis
  proof (cases "task_phase t")
    case (Fetching attempt)
    show ?thesis
    proof (cases "fetchWithRetry_attempt attempt (req_maxRetries (task_request t)) outcome")
      case Retry
      then show ?thesis using Some Fetching upd by (simp add: fetch_settles_def)
    next
      case (Throw e)
      then show ?thesis using Some Fetching single_flight_phase [OF inv Some]
        by (simp add: fetch_settles_def)
    next
      case (Return r)
      then show ?thesis using Some Fetching single_flight_phase [OF inv Some]
        by (simp add: fetch_settles_def)
    qed
  qed (use Some inv in \<open>simp_all add: fetch_settles_def\<close>)
qed

lemma single_flight_json_settles:
  assumes inv: "single_flight s"
  shows "single_flight (json_settles env p body now s)"
proof (cases "tasks s p")
  case None
  then show ?thesis using inv by (simp add: json_settles_def)
next
  case (Some t)
  have upd: "single_flight (s \<lparr> tasks := (tasks s)(p \<mapsto> t \<lparr> task_phase := ph \<rparr>),
                               responseCache := rc, cacheWrites := cw \<rparr>)" for ph rc cw
    using single_flight_phase [OF inv Some, of ph]
    by (subst single_flight_cong [of _ "s \<lparr> tasks := (tasks s)(p \<mapsto> t \<lparr> task_phase := ph \<rparr>) \<rparr>"]) simp_all
  show ?thesis
  proof (cases "task_phase t")
    case Parsing
    obtain out w where b: "callBusApi_body env (task_request t) body now = (out, w)"
      by (cases "callBusApi_body env (task_request t) body now")
    show ?thesis
    proof (cases w)
      case None
      then show ?thesis using Some Parsing b single_flight_phase [OF inv Some]
        by (simp add: json_settles_def)
    next
      case (Some ke)
      then show ?thesis using \<open>tasks s p = Some t\<close> Parsing b upd
        by (cases ke) (simp add: json_settles_def)
    qed
  qed (use Some inv in \<open>simp_all add: json_settles_def\<close>)
qed

lemma single_flight_finally_runs:
  assumes inv: "single_flight s"
  shows "single_flight (finally_runs p s)"
proof (cases "tasks s p")
  case None
  then show ?thesis using inv by (simp add: finally_runs_def)
next
  case (Some t)
  show ?thesis
  proof (cases "task_phase t")
    case (Settled out)
    then show ?thesis using Some single_flight_finally [OF inv Some]
      by (simp add: finally_runs_def)
  qed (use Some inv in \<open>simp_all add: finally_runs_def\<close>)
qed

lemma single_flight_call:
  assumes inv: "single_flight s"
  shows "single_flight (step env (Call options now) s)"
proof (cases env options now s rule: callBusApi_cases)
  case (rejects e)
  then show ?thesis using single_flight_returned [OF inv] by (simp add: step_def)
next
  case (hit req entry)
  then show ?thesis using single_flight_returned [OF inv] by (simp add: step_def)
next
  case (joins req p)
  then show ?thesis using single_flight_returned [OF inv] by (simp add: step_def)
next
  case (launches req)
  then show ?thesis
    using single_flight_launch [OF inv launches(3), where u = "request_url req"
        and ph = "Fetching 1" and fl = "fetchLog s @ [(nextPromise s, request_url req)]"]
    by (simp add: step_def)
qed

lemma single_flight_step:
  assumes inv: "single_flight s"
  shows "single_flight (step env ev s)"
proof (cases ev)
  case (Call options now)
  then show ?thesis using single_flight_call [OF inv] by simp
next
  case (FetchSettles p outcome)
  then show ?thesis using single_flight_fetch_settles [OF inv] by (simp add: step_def)
next
  case (JsonSettles p body now)
  then show ?thesis using single_flight_json_settles [OF inv] by (simp add: step_def)
next
  case (FinallyRuns p)
  then show ?thesis using single_flight_finally_runs [OF inv] by (simp add: step_def)
next
  case (Invalidate predicate)
  have "single_flight (invalidateBusCache predicate s) = single_flight s"
    by (rule single_flight_cong) (simp_all add: invalidateBusCache_def)
  then show ?thesis using Invalidate inv by (simp add: step_def)
qed

lemma single_flight_run:
  "single_flight s \<Longrightarrow> single_flight (run env evs s)"
proof (induction evs arbitrary: s)
  case Nil
  then show ?case by (simp add: run_def)
next
  case (Cons ev evs)
  have "run env (ev # evs) s = run env evs (step env ev s)" by (simp add: run_def)
  then show ?case using Cons.IH [OF single_flight_step [OF Cons.prems]] by simp
qed

lemma single_flight_reachable: "single_flight (run env evs init_state)"
  by (rule single_flight_run [OF single_flight_init])

text \<open>A settled promise keeps its outcome.\<close>

lemma callBusApi_settled: "settled (snd (callBusApi env options now s)) = settled s"
  by (cases env options now s rule: callBusApi_cases) simp_all

lemma fetch_settles_settled: "settled (fetch_settles p outcome s) = settled s"
  by (simp add: fetch_settles_def split: option.split phase.split retry_decision.split)

lemma json_settles_settled: "settled (json_settles env p body now s) = settled s"
  by (simp add: json_settles_def split: option.split phase.split prod.split)

lemma settled_step:
  assumes inv: "single_flight s" and st: "settled s p = Some out"
  shows "settled (step env ev s) p = Some out"
proof (cases ev)
  case (Call options now)
  then show ?thesis
    using callBusApi_settled [of env options now s] st by (simp add: step_def case_prod_unfold)
next
  case (FetchSettles q outcome)
  then show ?thesis using st by (simp add: step_def fetch_settles_settled)
next
  case (JsonSettles q body now)
  then show ?thesis using st by (simp add: step_def json_settles_settled)
next
  case (FinallyRuns q)
  have gone: "tasks s p = None"
    using inv st unfolding single_flight_def by (metis option.distinct(1))
  show ?thesis
  proof (cases "q = p")
    case True
    then show ?thesis using FinallyRuns gone st by (simp add: step_def finally_runs_def)
  next
    case False
    then show ?thesis using FinallyRuns st
      by (simp add: step_def finally_runs_def split: option.split phase.split)
  qed
next
  case (Invalidate predicate)
  then show ?thesis using st by (simp add: step_def invalidateBusCache_def)
qed

lemma settled_run:
  "single_flight s \<Longrightarrow> settled s p = Some out \<Longrightarrow> settled (run env evs s) p = Some out"
proof (induction evs arbitrary: s)
  case Nil
  then show ?case by (simp add: run_def)
next
  case (Cons ev evs)
  have "run env (ev # evs) s = run env evs (step env ev s)" by (simp add: run_def)
  then show ?case
    using Cons.IH [OF single_flight_step [OF Cons.prems(1)] settled_step [OF Cons.prems]] by simp
qed

lemma one_task_per_key:
  assumes inv: "single_flight s" and "tasks s p = Some t" and "tasks s q = Some u"
      and "req_cacheKey (task_request t) = req_cacheKey (task_request u)"
  shows "p = q"
proof -
  have "inFlightRequests s (req_cacheKey (task_request t)) = Some p"
    using inv assms(2) unfolding single_flight_def by blast
  moreover have "inFlightRequests s (req_cacheKey (task_request t)) = Some q"
    using inv assms(3,4) unfolding single_flight_def by metis
  ultimately show ?thesis by simp
qed

lemma joins_in_flight:
  assumes inv: "single_flight s" and req: "callBusApi_request env options = Inr req"
      and nohit: "\<not> (req_cacheTtlMs req > 0
               \<and> (\<exists>entry. responseCache s (req_cacheKey req) = Some entry \<and> entry_expiresAt entry > now))"
      and reg: "inFlightRequests s (req_cacheKey req) = Some p"
  shows "callBusApi env options now s = (Joins p, s)"
    and "\<exists>t. tasks s p = Some t \<and> req_cacheKey (task_request t) = req_cacheKey req"
    and "Launches p \<in> set (returned s)"
proof -
  have c: "callBusApi env options now s = callBusApi_coalesce req s"
    using req nohit by (auto simp: callBusApi_def split: option.splits)
  show "callBusApi env options now s = (Joins p, s)"
    using reg by (simp add: c callBusApi_coalesce_def)
  show t: "\<exists>t. tasks s p = Some t \<and> req_cacheKey (task_request t) = req_cacheKey req"
    using inv reg unfolding single_flight_def by blast
  then show "Launches p \<in> set (returned s)"
    using inv unfolding single_flight_def by blast
qed

lemma finally_settles:
  assumes inv: "single_flight s" and t: "tasks s p = Some t" and ph: "task_phase t = Settled out"
  shows "inFlightRequests (finally_runs p s) (req_cacheKey (task_request t)) = None"
    and "tasks (finally_runs p s) p = None"
    and "settled (finally_runs p s) p = Some out"
    and "finallyLog (finally_runs p s) = finallyLog s @ [p]"
    and "p \<notin> set (finallyLog s)"
    and "finally_runs p (finally_runs p s) = finally_runs p s"
proof -
  have f: "finally_runs p s =
        s \<lparr> inFlightRequests := (inFlightRequests s)(req_cacheKey (task_request t) := None),
            tasks := (tasks s)(p := None),
            settled := (settled s)(p \<mapsto> out),
            finallyLog := finallyLog s @ [p] \<rparr>"
    using t ph by (simp add: finally_runs_def)
  show "inFlightRequests (finally_runs p s) (req_cacheKey (task_request t)) = None"
    by (simp add: f)
  show g: "tasks (finally_runs p s) p = None" by (simp add: f)
  show "settled (finally_runs p s) p = Some out" by (simp add: f)
  show "finallyLog (finally_runs p s) = finallyLog s @ [p]" by (simp add: f)
  show "p \<notin> set (finallyLog s)" using inv t unfolding single_flight_def by auto
  show "finally_runs p (finally_runs p s) = finally_runs p s"
    using g by (simp add: finally_runs_def [of p "finally_runs p s"])
qed

text \<open>
  C1, amended: in every state the client can reach, at most one task runs for a cache
  key, and the registry holds exactly the running tasks; a caller that arrives while a
  request for its key is registered, passes validation and is not served from an unexpired
  cache entry (it has \<^verbatim>\<open>cacheTtl \<le> 0\<close>, or the cache holds no fresh entry for the key) is
  handed the promise of the running task, which a launching caller holds too, and the
  state is left as it is (no second \<^verbatim>\<open>fetch\<close>); when the body of a task has settled, with
  a result or with an error, its \<^verbatim>\<open>finally\<close> callback removes the registry entry of its key
  and the task, it did not run before and has no effect if run again, and from then on the
  launching caller and the joined callers observe that same outcome, in every later state.
\<close>

theorem single_flight_coalescing:
  assumes s: "s = run env evs init_state"
  shows "single_flight s
       \<and> (\<forall>p q t u. tasks s p = Some t \<and> tasks s q = Some u
              \<and> req_cacheKey (task_request t) = req_cacheKey (task_request u) \<longrightarrow> p = q)
       \<and> (\<forall>options now req p.
              callBusApi_request env options = Inr req
              \<and> \<not> (req_cacheTtlMs req > 0
                    \<and> (\<exists>entry. responseCache s (req_cacheKey req) = Some entry
                                 \<and> entry_expiresAt entry > now))
              \<and> inFlightRequests s (req_cacheKey req) = Some p
              \<longrightarrow> callBusApi env options now s = (Joins p, s)
                  \<and> (\<exists>t. tasks s p = Some t \<and> req_cacheKey (task_request t) = req_cacheKey req)
                  \<and> Launches p \<in> set (returned s)
                  \<and> (\<forall>s'. eventual s' (Joins p) = eventual s' (Launches p)))
       \<and> (\<forall>p t out. tasks s p = Some t \<and> task_phase t = Settled out
              \<longrightarrow> inFlightRequests (finally_runs p s) (req_cacheKey (task_request t)) = None
                  \<and> tasks (finally_runs p s) p = None
                  \<and> finallyLog (finally_runs p s) = finallyLog s @ [p]
                  \<and> p \<notin> set (finallyLog s)
                  \<and> finally_runs p (finally_runs p s) = finally_runs p s
                  \<and> (\<forall>evs'. eventual (run env evs' (finally_runs p s)) (Joins p) = Some out
                            \<and> eventual (run env evs' (finally_runs p s)) (Launches p) = Some out))"
proof -
  have inv: "single_flight s" unfolding s by (rule single_flight_reachable)
  have a: "\<forall>p q t u. tasks s p = Some t \<and> tasks s q = Some u
              \<and> req_cacheKey (task_request t) = req_cacheKey (task_request u) \<longrightarrow> p = q"
    using one_task_per_key [OF inv] by blast
  have b: "\<forall>options now req p.
              callBusApi_request env options = Inr req
              \<and> \<not> (req_cacheTtlMs req > 0
                    \<and> (\<exists>entry. responseCache s (req_cacheKey req) = Some entry
                                 \<and> entry_expiresAt entry > now))
              \<and> inFlightRequests s (req_cacheKey req) = Some p
              \<longrightarrow> callBusApi env options now s = (Joins p, s)
                  \<and> (\<exists>t. tasks s p = Some t \<and> req_cacheKey (task_request t) = req_cacheKey req)
                  \<and> Launches p \<in> set (returned s)
                  \<and> (\<forall>s'. eventual s' (Joins p) = eventual s' (Launches p))"
  proof (intro allI impI, elim conjE)
    fix options now req p
    assume h: "callBusApi_request env options = Inr req"
      "\<not> (req_cacheTtlMs req > 0
          \<and> (\<exists>entry. responseCache s (req_cacheKey req) = Some entry \<and> entry_expiresAt entry > now))"
      "inFlightRequests s (req_cacheKey req) = Some p"
    have e: "\<forall>s'. eventual s' (Joins p) = eventual s' (Launches p)"
      by (simp add: eventual_def)
    show "callBusApi env options now s = (Joins p, s)
        \<and> (\<exists>t. tasks s p = Some t \<and> req_cacheKey (task_request t) = req_cacheKey req)
        \<and> Launches p \<in> set (returned s)
        \<and> (\<forall>s'. eventual s' (Joins p) = eventual s' (Launches p))"
      using joins_in_flight [OF inv h] e by (intro conjI)
  qed
  have c: "\<forall>p t out. tasks s p = Some t \<and> task_phase t = Settled out
              \<longrightarrow> inFlightRequests (finally_runs p s) (req_cacheKey (task_request t)) = None
                  \<and> tasks (finally_runs p s) p = None
                  \<and> finallyLog (finally_runs p s) = finallyLog s @ [p]
                  \<and> p \<notin> set (finallyLog s)
                  \<and> finally_runs p (finally_runs p s) = finally_runs p s
                  \<and> (\<forall>evs'. eventual (run env evs' (finally_runs p s)) (Joins p) = Some out
                            \<and> eventual (run env evs' (finally_runs p s)) (Launches p) = Some out)"
  proof (intro allI impI, elim conjE)
    fix p t out
    assume h: "tasks s p = Some t" "task_phase t = Settled out"
    note f = finally_settles [OF inv h]
    have inv': "single_flight (finally_runs p s)" by (rule single_flight_finally_runs [OF inv])
    have e: "\<forall>evs'. eventual (run env evs' (finally_runs p s)) (Joins p) = Some out
                  \<and> eventual (run env evs' (finally_runs p s)) (Launches p) = Some out"
      using settled_run [OF inv' f(3), of env] by (simp add: eventual_def)
    show "inFlightRequests (finally_runs p s) (req_cacheKey (task_request t)) = None
        \<and> tasks (finally_runs p s) p = None
        \<and> finallyLog (finally_runs p s) = finallyLog s @ [p]
        \<and> p \<notin> set (finallyLog s)
        \<and> finally_runs p (finally_runs p s) = finally_runs p s
        \<and> (\<forall>evs'. eventual (run env evs' (finally_runs p s)) (Joins p) = Some out
                  \<and> eventual (run env evs' (finally_runs p s)) (Launches p) = Some out)"
      using f e by (intro conjI)
  qed
  show ?thesis using inv a b c by (intro conjI)
qed

text \<open>
  C1 as stated fails for a caller that the cache serves: in the second example trace the
  request launched at time 2000 (with \<^verbatim>\<open>cacheTtl = 0\<close>) is in flight for the key when the
  call at time 3000 (with \<^verbatim>\<open>cacheTtl = 15000\<close>) arrives; that caller is handed the entry
  cached before, marked as served from the cache, and not the outcome of the request in
  flight, which the launching caller receives.
\<close>

theorem cache_hit_while_in_flight:
  "inFlightRequests (run example_env (take 5 example_trace_mixed) init_state)
       (req_cacheKey example_request) = Some 1
   \<and> returned (run example_env example_trace_mixed init_state) ! 1 = Launches 1
   \<and> returned (run example_env example_trace_mixed init_state) ! 2
       = CacheHit
           \<lparr> res_payload = plain_payload,
             res_meta =
               \<lparr> meta_endpoint = ''getpredictions'',
                 meta_params = req_normalizedParams example_request,
                 meta_cacheKey = req_cacheKey example_request,
                 meta_cacheTtlMs = Some 15000, meta_cacheExpiresAt = Some 16000,
                 meta_servedFromCache = True, meta_sourceTimestamp = None,
                 meta_reason = None \<rparr> \<rparr>
   \<and> eventual (run example_env example_trace_mixed init_state)
         (returned (run example_env example_trace_mixed init_state) ! 1)
       = Some (Inr \<lparr> res_payload = plain_payload,
                      res_meta =
                        \<lparr> meta_endpoint = ''getpredictions'',
                          meta_params = req_normalizedParams example_request,
                          meta_cacheKey = req_cacheKey example_request,
                          meta_cacheTtlMs = Some 0, meta_cacheExpiresAt = None,
                          meta_servedFromCache = False, meta_sourceTimestamp = None,
                          meta_reason = None \<rparr> \<rparr>)
   \<and> eventual (run example_env example_trace_mixed init_state)
         (returned (run example_env example_trace_mixed init_state) ! 2)
       \<noteq> eventual (run example_env example_trace_mixed init_state)
           (returned (run example_env example_trace_mixed init_state) ! 1)"
proof -
  have 1: "inFlightRequests (run example_env (take 5 example_trace_mixed) init_state)
       (req_cacheKey example_request) = Some 1"
    by code_simp
  have 2: "returned (run example_env example_trace_mixed init_state) ! 1 = Launches 1"
    by code_simp
  have 3: "returned (run example_env example_trace_mixed init_state) ! 2
       = CacheHit
           \<lparr> res_payload = plain_payload,
             res_meta =
               \<lparr> meta_endpoint = ''getpredictions'',
                 meta_params = req_normalizedParams example_request,
                 meta_cacheKey = req_cacheKey example_request,
                 meta_cacheTtlMs = Some 15000, meta_cacheExpiresAt = Some 16000,
                 meta_servedFromCache = True, meta_sourceTimestamp = None,
                 meta_reason = None \<rparr> \<rparr>"
    by code_simp
  have 4: "eventual (run example_env example_trace_mixed init_state)
         (returned (run example_env example_trace_mixed init_state) ! 1)
       = Some (Inr \<lparr> res_payload = plain_payload,
                      res_meta =
                        \<lparr> meta_endpoint = ''getpredictions'',
                          meta_params = req_normalizedParams example_request,
                          meta_cacheKey = req_cacheKey example_request,
                          meta_cacheTtlMs = Some 0, meta_cacheExpiresAt = None,
                          meta_servedFromCache = False, meta_sourceTimestamp = None,
                          meta_reason = None \<rparr> \<rparr>)"
    by code_simp
  have 5: "eventual (run example_env example_trace_mixed init_state)
         (returned (run example_env example_trace_mixed init_state) ! 2)
       \<noteq> eventual (run example_env example_trace_mixed init_state)
           (returned (run example_env example_trace_mixed init_state) ! 1)"
    by (simp only: 3 4) (simp add: eventual_def)
  show ?thesis using 1 2 3 4 5 by (intro conjI)
qed

lemma example_failed_task:
  "tasks (run example_env example_trace_failed init_state) 0
     = Some \<lparr> task_request = example_request, task_url = request_url example_request,
               task_phase =
                 Settled (Inl ((BusClientError ''CTA_BUS_INVALID_RESPONSE''
                                  ''CTA bus tracker returned invalid JSON.'')
                               \<lparr> err_endpoint := Some ''getpredictions'',
                                 err_params := Some (req_normalizedParams example_request) \<rparr>)) \<rparr>"
  by code_simp

theorem single_flight_coalescing_witness:
  "single_flight (run example_env example_trace init_state)
   \<and> callBusApi example_env example_options 20001 (run example_env example_trace init_state)
       = (Joins 1, run example_env example_trace init_state)
   \<and> Launches 1 \<in> set (returned (run example_env example_trace init_state))
   \<and> inFlightRequests (finally_runs 0 (run example_env example_trace_failed init_state))
         (req_cacheKey example_request) = None
   \<and> eventual (finally_runs 0 (run example_env example_trace_failed init_state)) (Launches 0)
       = Some (Inl ((BusClientError ''CTA_BUS_INVALID_RESPONSE''
                       ''CTA bus tracker returned invalid JSON.'')
                    \<lparr> err_endpoint := Some ''getpredictions'',
                      err_params := Some (req_normalizedParams example_request) \<rparr>))"
proof -
  note a = single_flight_coalescing [OF refl, of example_env example_trace]
  note f = single_flight_coalescing [OF refl, of example_env example_trace_failed]
  have nohit: "\<not> (req_cacheTtlMs example_request > 0
         \<and> (\<exists>entry. responseCache (run example_env example_trace init_state)
                        (req_cacheKey example_request) = Some entry
                     \<and> entry_expiresAt entry > 20001))"
    by (simp add: example_trace_entry)
  have j: "callBusApi example_env example_options 20001 (run example_env example_trace init_state)
             = (Joins 1, run example_env example_trace init_state)
         \<and> (\<exists>t. tasks (run example_env example_trace init_state) 1 = Some t
                \<and> req_cacheKey (task_request t) = req_cacheKey example_request)
         \<and> Launches 1 \<in> set (returned (run example_env example_trace init_state))
         \<and> (\<forall>s'. eventual s' (Joins 1) = eventual s' (Launches 1 :: unit call_return))"
    by (rule a [THEN conjunct2, THEN conjunct2, THEN conjunct1, rule_format,
          OF conjI [OF example_request_eq conjI [OF nohit example_trace_in_flight]]])
  have k: "req_cacheKey (task_request
              \<lparr> task_request = example_request, task_url = request_url example_request,
                task_phase =
                  Settled (Inl ((BusClientError ''CTA_BUS_INVALID_RESPONSE''
                                   ''CTA bus tracker returned invalid JSON.'')
                                \<lparr> err_endpoint := Some ''getpredictions'',
                                  err_params := Some (req_normalizedParams example_request) \<rparr>))
                  :: unit phase \<rparr>)
           = req_cacheKey example_request"
    by simp
  have ph: "task_phase
              \<lparr> task_request = example_request, task_url = request_url example_request,
                task_phase =
                  Settled (Inl ((BusClientError ''CTA_BUS_INVALID_RESPONSE''
                                   ''CTA bus tracker returned invalid JSON.'')
                                \<lparr> err_endpoint := Some ''getpredictions'',
                                  err_params := Some (req_normalizedParams example_request) \<rparr>))
                  :: unit phase \<rparr>
           = Settled (Inl ((BusClientError ''CTA_BUS_INVALID_RESPONSE''
                                   ''CTA bus tracker returned invalid JSON.'')
                                \<lparr> err_endpoint := Some ''getpredictions'',
                                  err_params := Some (req_normalizedParams example_request) \<rparr>))"
    by simp
  note g = f [THEN conjunct2, THEN conjunct2, THEN conjunct2, rule_format,
      OF conjI [OF example_failed_task ph]]
  have g1: "inFlightRequests (finally_runs 0 (run example_env example_trace_failed init_state))
         (req_cacheKey example_request) = None"
    using g [THEN conjunct1] by (simp only: k)
  have g2: "eventual (finally_runs 0 (run example_env example_trace_failed init_state)) (Launches 0)
       = Some (Inl ((BusClientError ''CTA_BUS_INVALID_RESPONSE''
                       ''CTA bus tracker returned invalid JSON.'')
                    \<lparr> err_endpoint := Some ''getpredictions'',
                      err_params := Some (req_normalizedParams example_request) \<rparr>))"
    using g [THEN conjunct2, THEN conjunct2, THEN conjunct2, THEN conjunct2, THEN conjunct2,
        rule_format, of "[]", THEN conjunct2]
    by (simp add: run_def)
  show ?thesis
    using a [THEN conjunct1] j [THEN conjunct1] j [THEN conjunct2, THEN conjunct2, THEN conjunct1] g1 g2
    by (intro conjI)
qed

subsection \<open>The credential\<close>

lemma callBusApi_request_credential:
  assumes "truthy k"
  shows "callBusApi_request (env \<lparr> env_apiKey := Some k \<rparr>) options =
     (let params = (case opt_params options of Some ps \<Rightarrow> ps | None \<Rightarrow> []);
          requiredKeys = (case opt_requiredParams options of Some ks \<Rightarrow> ks | None \<Rightarrow> [])
      in case find (is_missing params) requiredKeys of
           Some key \<Rightarrow>
             Inl ((BusClientError ''CTA_BUS_BAD_REQUEST'' (''Missing required parameter: '' @ key))
                    \<lparr> err_status := 400, err_endpoint := Some (opt_endpoint options),
                      err_params := Some (normalizeParams params) \<rparr>)
         | None \<Rightarrow>
             (let normalizedParams = callBusApi_defaults env (normalizeParams params)
              in Inr \<lparr> req_endpoint = opt_endpoint options,
                       req_normalizedParams = normalizedParams,
                       req_cacheKey =
                         computeCacheKey (opt_endpoint options) normalizedParams (opt_cacheKey options),
                       req_cacheTtlMs = (case opt_cacheTtlMs options of Some t \<Rightarrow> t | None \<Rightarrow> 0),
                       req_timeoutMs =
                         (case opt_timeoutMs options of Some t \<Rightarrow> t | None \<Rightarrow> DEFAULT_TIMEOUT_MS),
                       req_maxRetries =
                         (case opt_maxRetries options of Some n \<Rightarrow> n | None \<Rightarrow> DEFAULT_MAX_RETRIES),
                       req_requestParams =
                         AList.update ''format'' ''json'' (AList.update ''key'' k normalizedParams) \<rparr>))"
proof -
  have d: "callBusApi_defaults (env \<lparr> env_apiKey := Some k \<rparr>) = callBusApi_defaults env"
    by (simp add: callBusApi_defaults_def CTA_BUS_RTPIDATAFEED_def fun_eq_iff)
  have e: "ensureApiKey (env \<lparr> env_apiKey := Some k \<rparr>) = None"
    using assms by (simp add: ensureApiKey_def truthy_opt_def)
  have s: "the (env_apiKey (env \<lparr> env_apiKey := Some k \<rparr>)) = k" by simp
  show ?thesis
    unfolding callBusApi_request_def e d s option.case by (rule refl)
qed

lemma callBusApi_body_credential:
  assumes "env_ctaDateIso env1 = env_ctaDateIso env2"
      and "r1 \<lparr> req_requestParams := [] \<rparr> = r2 \<lparr> req_requestParams := [] \<rparr>"
  shows "callBusApi_body env1 r1 body now = callBusApi_body env2 r2 body now"
proof -
  have f: "req_endpoint r1 = req_endpoint r2" "req_normalizedParams r1 = req_normalizedParams r2"
    "req_cacheKey r1 = req_cacheKey r2" "req_cacheTtlMs r1 = req_cacheTtlMs r2"
    using assms(2) by (cases r1; cases r2; simp)+
  have p: "parseTimestampToIso env1 = parseTimestampToIso env2"
    by (simp add: parseTimestampToIso_def fun_eq_iff assms(1))
  have c: "callBusApi_classify r1 ts payload = callBusApi_classify r2 ts payload" for ts and payload :: "'a bustime_payload"
    unfolding callBusApi_classify_def f by (rule refl)
  show ?thesis unfolding callBusApi_body_def f p c by (rule refl)
qed

text \<open>
  C9: for any two configured (non-empty) credentials and the same request options,
  \<^verbatim>\<open>callBusApi\<close> rejects the call with the same error or derives requests that agree in
  everything but the parameters of the outgoing request: the same cache key and the same
  normalised parameters, which become \<^verbatim>\<open>meta.params\<close>; the body then settles with the same
  outcome and the same cache write. The credential is the \<^verbatim>\<open>key\<close> parameter of the outgoing
  request, from which the URL is built.
\<close>

theorem credential_only_in_request:
  assumes "truthy k1" and "truthy k2"
  shows "map_sum id (\<lambda>r. r \<lparr> req_requestParams := [] \<rparr>)
             (callBusApi_request (env \<lparr> env_apiKey := Some k1 \<rparr>) options)
           = map_sum id (\<lambda>r. r \<lparr> req_requestParams := [] \<rparr>)
               (callBusApi_request (env \<lparr> env_apiKey := Some k2 \<rparr>) options)
       \<and> (\<forall>r1 r2. callBusApi_request (env \<lparr> env_apiKey := Some k1 \<rparr>) options = Inr r1
                  \<and> callBusApi_request (env \<lparr> env_apiKey := Some k2 \<rparr>) options = Inr r2
              \<longrightarrow> req_cacheKey r1 = req_cacheKey r2
                  \<and> req_normalizedParams r1 = req_normalizedParams r2
                  \<and> callBusApi_body (env \<lparr> env_apiKey := Some k1 \<rparr>) r1 body now
                      = callBusApi_body (env \<lparr> env_apiKey := Some k2 \<rparr>) r2 body now
                  \<and> map_of (req_requestParams r1) ''key'' = Some k1
                  \<and> map_of (req_requestParams r2) ''key'' = Some k2)"
proof -
  note e1 = callBusApi_request_credential [OF assms(1), of env options]
  note e2 = callBusApi_request_credential [OF assms(2), of env options]
  have a: "map_sum id (\<lambda>r. r \<lparr> req_requestParams := [] \<rparr>)
             (callBusApi_request (env \<lparr> env_apiKey := Some k1 \<rparr>) options)
           = map_sum id (\<lambda>r. r \<lparr> req_requestParams := [] \<rparr>)
               (callBusApi_request (env \<lparr> env_apiKey := Some k2 \<rparr>) options)"
    unfolding e1 e2 by (simp add: Let_def split: option.split)
  have k: "map_of (req_requestParams r) ''key'' = Some k"
    if "callBusApi_request (env \<lparr> env_apiKey := Some k \<rparr>) options = Inr r" "truthy k" for r k
    using that(1) unfolding callBusApi_request_credential [OF that(2), of env options]
    by (auto simp: Let_def AList.update_conv' split: option.splits)
  have b: "req_cacheKey r1 = req_cacheKey r2
         \<and> req_normalizedParams r1 = req_normalizedParams r2
         \<and> callBusApi_body (env \<lparr> env_apiKey := Some k1 \<rparr>) r1 body now
             = callBusApi_body (env \<lparr> env_apiKey := Some k2 \<rparr>) r2 body now
         \<and> map_of (req_requestParams r1) ''key'' = Some k1
         \<and> map_of (req_requestParams r2) ''key'' = Some k2"
    if r: "callBusApi_request (env \<lparr> env_apiKey := Some k1 \<rparr>) options = Inr r1"
       "callBusApi_request (env \<lparr> env_apiKey := Some k2 \<rparr>) options = Inr r2" for r1 r2
  proof -
    have eq: "r1 \<lparr> req_requestParams := [] \<rparr> = r2 \<lparr> req_requestParams := [] \<rparr>"
      using a by (simp add: r)
    then have f: "req_cacheKey r1 = req_cacheKey r2" "req_normalizedParams r1 = req_normalizedParams r2"
      by (cases r1; cases r2; simp)+
    have bd: "callBusApi_body (env \<lparr> env_apiKey := Some k1 \<rparr>) r1 body now
             = callBusApi_body (env \<lparr> env_apiKey := Some k2 \<rparr>) r2 body now"
      by (rule callBusApi_body_credential [OF _ eq]) simp
    show ?thesis using f bd k [OF r(1) assms(1)] k [OF r(2) assms(2)] by (intro conjI)
  qed
  show ?thesis using a b by blast
qed

theorem credential_only_in_request_witness:
  "req_cacheKey example_request = ''getpredictions?format=json&rtpidatafeed=ctabus&stpid=1836''
   \<and> callBusApi_request (example_env \<lparr> env_apiKey := Some ''other'' \<rparr>) example_options
       = Inr (example_request \<lparr> req_requestParams :=
                [(''stpid'', ''1836''), (''rtpidatafeed'', ''ctabus''), (''format'', ''json''),
                 (''key'', ''other'')] \<rparr>)
   \<and> map_sum id (\<lambda>r. r \<lparr> req_requestParams := [] \<rparr>)
         (callBusApi_request (example_env \<lparr> env_apiKey := Some ''secret'' \<rparr>) example_options)
       = map_sum id (\<lambda>r. r \<lparr> req_requestParams := [] \<rparr>)
           (callBusApi_request (example_env \<lparr> env_apiKey := Some ''other'' \<rparr>) example_options)"
proof -
  have 1: "req_cacheKey example_request = ''getpredictions?format=json&rtpidatafeed=ctabus&stpid=1836''"
    by (simp add: example_request_def)
  have 2: "callBusApi_request (example_env \<lparr> env_apiKey := Some ''other'' \<rparr>) example_options
       = Inr (example_request \<lparr> req_requestParams :=
                [(''stpid'', ''1836''), (''rtpidatafeed'', ''ctabus''), (''format'', ''json''),
                 (''key'', ''other'')] \<rparr>)"
    by code_simp
  have t: "truthy ''secret''" "truthy ''other''" by (simp_all add: truthy_def)
  show ?thesis
    using 1 2 conjunct1 [OF credential_only_in_request [OF t, of example_env example_options]]
    by (intro conjI)
qed

subsection \<open>Genuine upstream failures\<close>











end
